theory Spec2Isabelle
  imports Main "HOL-Library.Word" "HOL-Library.Char_ord" "HOL-Library.List_Lexorder"
begin

section \<open>Data model (config.go, resolver.go, stats.go)\<close>

type_synonym uint16 = "16 word"
type_synonym uint32 = "32 word"
type_synonym int64 = "64 word"

text \<open>
  A Go function that can panic (an index out of range, a send on a closed channel)
  returns \<open>Panic\<close> in the model; every other return is \<open>Return v\<close>.
\<close>

datatype 'a go = Panic | Return 'a

datatype error =
    NoResolversAvailable
  | ExchangeError string
  | UnknownQueryType string
  | InvalidQueryTypes error

text \<open>
  The fields of \<open>Config\<close> that the modelled functions read. Go's \<open>int\<close> is modelled
  as \<open>int\<close>: no modelled computation on these fields leaves the 64-bit range.
\<close>

record Config =
  QueryTypes :: string
  QPS :: int
  Timeout :: int
  Retries :: int
  Workers :: int

definition defaultQPS :: int where
  "defaultQPS = 100"

record DNSResolver =
  Address :: string
  ClientTimeout :: int

record ResolverPool =
  resolvers :: "DNSResolver list"
  index :: nat

section \<open>Resolver pool (resolver.go)\<close>

text \<open>
  \<open>GetResolver\<close>: \<open>nil\<close> for an empty pool; otherwise the endpoint under the cursor,
  and the cursor moves on by one modulo the length. Reading \<open>p.resolvers[p.index]\<close>
  with the cursor out of range panics in Go.
\<close>

definition GetResolver :: "ResolverPool \<Rightarrow> (DNSResolver option \<times> ResolverPool) go" where
  "GetResolver p =
     (if length (resolvers p) = 0 then Return (None, p)
      else if index p < length (resolvers p)
      then Return (Some (resolvers p ! index p),
                   p\<lparr>index := (index p + 1) mod length (resolvers p)\<rparr>)
      else Panic)"

text \<open>\<open>k\<close> successive calls of \<open>GetResolver\<close>: the endpoints handed out, in order, and the pool afterwards.\<close>

fun GetResolver_calls :: "nat \<Rightarrow> ResolverPool \<Rightarrow> (DNSResolver option list \<times> ResolverPool) go" where
  "GetResolver_calls 0 p = Return ([], p)"
| "GetResolver_calls (Suc k) p =
     (case GetResolver p of
        Panic \<Rightarrow> Panic
      | Return (r, p') \<Rightarrow>
          (case GetResolver_calls k p' of
             Panic \<Rightarrow> Panic
           | Return (rs, p'') \<Rightarrow> Return (r # rs, p'')))"

section \<open>Rate limiter\<close>

text \<open>Go's integer division truncates towards zero.\<close>

definition go_quot :: "int \<Rightarrow> int \<Rightarrow> int" where
  "go_quot a b = sgn a * sgn b * (\<bar>a\<bar> div \<bar>b\<bar>)"

text \<open>
  The token bucket of \<open>golang.org/x/time/rate\<close>, as far as the constructor and the two
  setters touch it: the rate in tokens per second and the burst size. The rate is a
  \<open>rate.Limit\<close>, a \<open>float64\<close>; the conversion \<open>rate.Limit(qps)\<close> of an \<open>int\<close> rounds to
  the nearest number with 53 significant bits, ties to the even one. Such a number is
  an integer whenever \<open>qps\<close> is, so the rate is kept as the \<open>int\<close> that the
  \<open>float64\<close> is. \<open>float64_ulp a\<close> is the distance between neighbouring \<open>float64\<close>
  numbers at \<open>a \<ge> 0\<close>, never below 1.
\<close>

function float64_ulp :: "int \<Rightarrow> int" where
  "float64_ulp a = (if a < 2 ^ 53 then 1 else 2 * float64_ulp (a div 2))"
  by pat_completeness auto
termination
  by (relation "measure nat") auto

declare float64_ulp.simps [simp del]

definition rate_Limit :: "int \<Rightarrow> int" where
  "rate_Limit q =
     (let a = \<bar>q\<bar>;
          u = float64_ulp a;
          k = a div u;
          r = a mod u;
          k' = (if u < 2 * r \<or> (2 * r = u \<and> odd k) then k + 1 else k)
      in sgn q * (k' * u))"

record Limiter =
  limit :: int
  burst :: int

record RateLimiter =
  limiter :: Limiter

definition NewRateLimiter :: "int \<Rightarrow> RateLimiter" where
  "NewRateLimiter qps0 =
     (let qps = (if qps0 \<le> 0 then defaultQPS else qps0);
          burst0 = go_quot qps 10;
          burst1 = (if burst0 < 1 then 1 else burst0)
      in \<lparr>limiter = \<lparr>limit = rate_Limit qps, burst = burst1\<rparr>\<rparr>)"

definition SetLimit :: "RateLimiter \<Rightarrow> int \<Rightarrow> RateLimiter" where
  "SetLimit r qps0 =
     (let qps = (if qps0 \<le> 0 then defaultQPS else qps0);
          burst0 = go_quot qps 10;
          burst1 = (if burst0 < 1 then 1 else burst0)
      in r\<lparr>limiter := (limiter r)\<lparr>limit := rate_Limit qps, burst := burst1\<rparr>\<rparr>)"

section \<open>Strings and numbers of the Go library, as far as the code uses them\<close>

text \<open>
  Go strings are byte sequences; \<open>string\<close> is a list of bytes too. The functions below
  are those of the standard library that work byte by byte.
\<close>

definition TrimSuffix :: "string \<Rightarrow> string \<Rightarrow> string" where
  "TrimSuffix s suf =
     (if length suf \<le> length s \<and> drop (length s - length suf) s = suf
      then take (length s - length suf) s else s)"

definition toUpperChar :: "char \<Rightarrow> char" where
  "toUpperChar c =
     (case map_of (zip ''abcdefghijklmnopqrstuvwxyz'' ''ABCDEFGHIJKLMNOPQRSTUVWXYZ'') c of
        Some u \<Rightarrow> u
      | None \<Rightarrow> c)"

definition isSpace :: "char \<Rightarrow> bool" where
  "isSpace c = (c \<in> set [CHR 0x09, CHR 0x0A, CHR 0x0B, CHR 0x0C, CHR 0x0D, CHR '' ''])"

text \<open>\<open>strings.Split(s, sep)\<close> for a one-byte separator: always at least one piece.\<close>

fun Split :: "string \<Rightarrow> char \<Rightarrow> string list" where
  "Split [] sep = [[]]"
| "Split (c # cs) sep =
     (if c = sep then [] # Split cs sep
      else (case Split cs sep of
              [] \<Rightarrow> [[c]]
            | t # ts \<Rightarrow> (c # t) # ts))"

fun Join :: "string list \<Rightarrow> string \<Rightarrow> string" where
  "Join [] sep = []"
| "Join [x] sep = x"
| "Join (x # y # ys) sep = x @ sep @ Join (y # ys) sep"

definition isDigit :: "char \<Rightarrow> bool" where
  "isDigit c = (CHR ''0'' \<le> c \<and> c \<le> CHR ''9'')"

definition digitVal :: "char \<Rightarrow> int" where
  "digitVal c = int (of_char c) - 48"

text \<open>
  \<open>strconv.Atoi\<close>: an optional sign and one or more decimal digits, in the range of a
  64-bit \<open>int\<close>; \<open>None\<close> is its error.
\<close>

definition Atoi :: "string \<Rightarrow> int option" where
  "Atoi s =
     (let neg = (s \<noteq> [] \<and> hd s = CHR ''-'');
          ds = (if s \<noteq> [] \<and> (hd s = CHR ''-'' \<or> hd s = CHR ''+'') then tl s else s)
      in if ds = [] \<or> \<not> list_all isDigit ds then None
         else (let n = foldl (\<lambda>a c. 10 * a + digitVal c) 0 ds;
                   v = (if neg then - n else n)
               in if v < - (2 ^ 63) \<or> 2 ^ 63 - 1 < v then None else Some v))"

text \<open>The verb \<open>%d\<close> of \<open>fmt\<close> on an unsigned value.\<close>

function showNat :: "nat \<Rightarrow> string" where
  "showNat n =
     (if n < 10 then [''0123456789'' ! n]
      else showNat (n div 10) @ [''0123456789'' ! (n mod 10)])"
  by pat_completeness auto
termination
  by (relation "measure id") auto

declare showNat.simps [simp del]

section \<open>DNS messages (github.com/miekg/dns), as far as the code reads them\<close>

definition TypeA :: uint16 where "TypeA = 1"
definition TypeNS :: uint16 where "TypeNS = 2"
definition TypeCNAME :: uint16 where "TypeCNAME = 5"
definition TypeSOA :: uint16 where "TypeSOA = 6"
definition TypePTR :: uint16 where "TypePTR = 12"
definition TypeMX :: uint16 where "TypeMX = 15"
definition TypeTXT :: uint16 where "TypeTXT = 16"
definition TypeAAAA :: uint16 where "TypeAAAA = 28"
definition TypeSRV :: uint16 where "TypeSRV = 33"

type_synonym IP = "8 word list"

text \<open>
  \<open>net.IP.String\<close> of the Go library, which the code calls on the address of an A and
  of an AAAA record: \<open><nil>\<close> for no bytes, \<open>?\<close> and the bytes in hexadecimal for a
  length other than 4 and 16, dotted decimal for four bytes and for sixteen bytes that
  are an IPv4-mapped address (\<open>To4\<close>: ten zero bytes, \<open>ff ff\<close>, then the four bytes), and
  otherwise the form of \<open>netip.Addr.String\<close>: the eight 16-bit groups in lower-case
  hexadecimal without leading zeros, separated by colons, the leftmost longest run of
  two or more zero groups replaced by \<open>::\<close>.
\<close>

function showHex :: "nat \<Rightarrow> string" where
  "showHex n =
     (if n < 16 then [''0123456789abcdef'' ! n]
      else showHex (n div 16) @ [''0123456789abcdef'' ! (n mod 16)])"
  by pat_completeness auto
termination
  by (relation "measure id") auto

declare showHex.simps [simp del]

definition hexString :: "IP \<Rightarrow> string" where
  "hexString ip =
     concat (map (\<lambda>b. [''0123456789abcdef'' ! (unat b div 16),
                         ''0123456789abcdef'' ! (unat b mod 16)]) ip)"

definition To4 :: "IP \<Rightarrow> IP option" where
  "To4 ip =
     (if length ip = 4 then Some ip
      else if length ip = 16 \<and> list_all (\<lambda>b. b = 0) (take 10 ip)
              \<and> ip ! 10 = 0xff \<and> ip ! 11 = 0xff
      then Some (drop 12 ip)
      else None)"

fun v6u16 :: "IP \<Rightarrow> nat list" where
  "v6u16 (hi # lo # rest) = (unat hi * 256 + unat lo) # v6u16 rest"
| "v6u16 ip = []"

text \<open>The number of zero groups at the head of a list of groups.\<close>

fun zeroRun :: "nat list \<Rightarrow> nat" where
  "zeroRun [] = 0"
| "zeroRun (g # gs) = (if g = 0 then Suc (zeroRun gs) else 0)"

text \<open>
  The first loop of \<open>appendTo6\<close>, at group \<open>i\<close> with the groups from \<open>i\<close> on: the run
  \<open>(zeroStart, zeroEnd)\<close> is replaced by a run of at least two zero groups that is
  strictly longer. It starts as \<open>(255, 255)\<close>, no run.
\<close>

fun longestZeros :: "nat list \<Rightarrow> nat \<Rightarrow> nat \<times> nat \<Rightarrow> nat \<times> nat" where
  "longestZeros [] i z = z"
| "longestZeros (g # gs) i (zeroStart, zeroEnd) =
     longestZeros gs (i + 1)
       (if zeroRun (g # gs) \<ge> 2 \<and> zeroRun (g # gs) > zeroEnd - zeroStart
        then (i, i + zeroRun (g # gs)) else (zeroStart, zeroEnd))"

definition string6 :: "nat list \<Rightarrow> string" where
  "string6 gs =
     (case longestZeros gs 0 (255, 255) of
        (zeroStart, zeroEnd) \<Rightarrow>
          if zeroStart < length gs
          then Join (map showHex (take zeroStart gs)) '':'' @ ''::''
                 @ Join (map showHex (drop zeroEnd gs)) '':''
          else Join (map showHex gs) '':'')"

definition dottedQuad :: "IP \<Rightarrow> string" where
  "dottedQuad p4 = Join (map (\<lambda>b. showNat (unat b)) p4) ''.''"

definition IP_String :: "IP \<Rightarrow> string" where
  "IP_String ip =
     (if length ip = 0 then ''<nil>''
      else if length ip \<noteq> 4 \<and> length ip \<noteq> 16 then ''?'' @ hexString ip
      else (case To4 ip of
              Some p4 \<Rightarrow> dottedQuad p4
            | None \<Rightarrow> string6 (v6u16 ip)))"

text \<open>
  A resource record is its header and the data of its dynamic type: the type switches of
  the code (\<open>rr.(*dns.A)\<close> and so on) are case distinctions on \<open>RData\<close>.
\<close>

datatype RData =
    DNS_A IP
  | DNS_AAAA IP
  | DNS_CNAME string
  | DNS_MX uint16 string
  | DNS_NS string
  | DNS_TXT "string list"
  | DNS_SOA string string uint32 uint32 uint32 uint32 uint32
  | DNS_PTR string
  | DNS_SRV uint16 uint16 uint16 string
  | DNS_Other "8 word list"

record RR_Header =
  Name :: string
  Rrtype :: uint16
  Ttl :: uint32

record RR =
  Header :: RR_Header
  Data :: RData

record Msg =
  Answer :: "RR list"

record Question =
  Qname :: string
  Qtype :: uint16
  RecursionDesired :: bool

record DNSResult =
  Domain :: string
  Type :: uint16
  Response :: "Msg option"
  Error :: "error option"
  Resolver :: string

record OutputRecord =
  Domain :: string
  Type :: string
  Record :: string
  Value :: string
  TTL :: uint32
  Resolver :: string

text \<open>
  What lies outside the repository: library functions the code calls, the network and
  the random number generator. \<open>Exchange X k addr q\<close> is what the \<open>k\<close>-th exchange of
  the run returns when it sends \<open>q\<close> to \<open>addr\<close> (the message and the error, each
  \<open>None\<close> for \<open>nil\<close>); \<open>Rand X k\<close> is the \<open>k\<close>-th number drawn.
  \<open>EffectiveTLDPlusOne\<close> is \<open>None\<close> where the library returns an error;
  \<open>TypeToString\<close> is the library's table, the empty string for a missing key;
  \<open>json_Marshal\<close> is \<open>None\<close> where the encoder returns an error.
\<close>

record Extern =
  Fqdn :: "string \<Rightarrow> string"
  EffectiveTLDPlusOne :: "string \<Rightarrow> string option"
  strings_ToUpper :: "string \<Rightarrow> string"
  strings_TrimSpace :: "string \<Rightarrow> string"
  RR_String :: "RR \<Rightarrow> string"
  TypeToString :: "uint16 \<Rightarrow> string"
  json_Marshal :: "OutputRecord \<Rightarrow> string option"
  csv_Write :: "string list \<Rightarrow> string"
  Exchange :: "nat \<Rightarrow> string \<Rightarrow> Question \<Rightarrow> Msg option \<times> error option"
  Rand :: "nat \<Rightarrow> nat"

text \<open>
  \<open>strings.ToUpper\<close> and \<open>strings.TrimSpace\<close>. On a string of ASCII bytes they map
  \<open>a..z\<close> to \<open>A..Z\<close> and strip the six ASCII white-space bytes at both ends. On any
  other string they work on Unicode code points (other letters, other white space),
  which is left to the library: \<open>strings_ToUpper X\<close> and \<open>strings_TrimSpace X\<close>.
\<close>

definition isASCII :: "string \<Rightarrow> bool" where
  "isASCII s = list_all (\<lambda>c. (of_char c :: nat) < 128) s"

definition ToUpper :: "Extern \<Rightarrow> string \<Rightarrow> string" where
  "ToUpper X s = (if isASCII s then map toUpperChar s else strings_ToUpper X s)"

definition TrimSpace :: "Extern \<Rightarrow> string \<Rightarrow> string" where
  "TrimSpace X s =
     (if isASCII s then rev (dropWhile isSpace (rev (dropWhile isSpace s)))
      else strings_TrimSpace X s)"

text \<open>
  The state that queries change: the pool (its cursor), the exchanges sent so far, in
  order, and how many random numbers have been drawn.
\<close>

record World =
  pool :: ResolverPool
  sent :: "(string \<times> Question) list"
  drawn :: nat

section \<open>Query with retries (main.go)\<close>

text \<open>
  \<open>attempt++\<close> on a Go \<open>int\<close>, taken as 64 bits wide (as on amd64 and arm64): the
  increment of the largest value wraps around to the smallest.
\<close>

definition int_inc :: "int \<Rightarrow> int" where
  "int_inc a = (if a = 2 ^ 63 - 1 then - (2 ^ 63) else a + 1)"

text \<open>
  The loop of \<open>performDNSQuery\<close> from attempt \<open>attempt\<close> on, with the last error so far.
  The per-attempt deadline and the cancellation of the context decide only what the
  exchange returns, which is \<open>Exchange X\<close>; the verbose log line is left out. The loop
  need not end (the condition \<open>attempt <= config.Retries\<close> holds for every \<open>int\<close> when
  \<open>Retries\<close> is the largest one): \<open>None\<close> is the loop that never returns,
  \<open>Some Panic\<close> the panic and \<open>Some (Return r)\<close> the return of \<open>r\<close>.
\<close>

partial_function (option) performDNSQuery_loop ::
  "Extern \<Rightarrow> Config \<Rightarrow> string \<Rightarrow> uint16 \<Rightarrow> int \<Rightarrow> error option \<Rightarrow> World
     \<Rightarrow> (DNSResult \<times> World) go option" where
  "performDNSQuery_loop X config domain qtype attempt lastErr w =
     (if attempt \<le> Retries config then
        (case GetResolver (pool w) of
           Panic \<Rightarrow> Some Panic
         | Return (None, p') \<Rightarrow>
             performDNSQuery_loop X config domain qtype (int_inc attempt)
               (Some NoResolversAvailable) (w\<lparr>pool := p'\<rparr>)
         | Return (Some resolver, p') \<Rightarrow>
             (let msg = \<lparr>Qname = Fqdn X domain, Qtype = qtype, RecursionDesired = True\<rparr>;
                  w' = w\<lparr>pool := p', sent := sent w @ [(Address resolver, msg)]\<rparr>
              in (case Exchange X (length (sent w)) (Address resolver) msg of
                    (response, Some err) \<Rightarrow>
                      performDNSQuery_loop X config domain qtype (int_inc attempt) (Some err) w'
                  | (response, None) \<Rightarrow>
                      Some (Return (\<lparr>DNSResult.Domain = domain, DNSResult.Type = qtype,
                                     Response = response, Error = None,
                                     DNSResult.Resolver = Address resolver\<rparr>, w')))))
      else Some (Return (\<lparr>DNSResult.Domain = domain, DNSResult.Type = qtype, Response = None,
                          Error = lastErr, DNSResult.Resolver = ''''\<rparr>, w)))"

definition performDNSQuery ::
  "Extern \<Rightarrow> Config \<Rightarrow> string \<Rightarrow> uint16 \<Rightarrow> World \<Rightarrow> (DNSResult \<times> World) go option" where
  "performDNSQuery X config domain qtype w =
     performDNSQuery_loop X config domain qtype 0 None w"

text \<open>
  To say what the loop does: the message of a query, the endpoint that round-robin
  hands to attempt \<open>k\<close> (counted from 0) when the loop starts in world \<open>w\<close>, what the
  exchange of that attempt returns, and the world after \<open>n\<close> attempts, each with an
  exchange: the cursor is \<open>n\<close> further and the \<open>n\<close> exchanges are in the log.
\<close>

definition query_message :: "Extern \<Rightarrow> string \<Rightarrow> uint16 \<Rightarrow> Question" where
  "query_message X domain qtype = \<lparr>Qname = Fqdn X domain, Qtype = qtype, RecursionDesired = True\<rparr>"

definition attempt_endpoint :: "World \<Rightarrow> nat \<Rightarrow> DNSResolver" where
  "attempt_endpoint w k =
     resolvers (pool w) ! ((index (pool w) + k) mod length (resolvers (pool w)))"

definition attempt_outcome ::
  "Extern \<Rightarrow> string \<Rightarrow> uint16 \<Rightarrow> World \<Rightarrow> nat \<Rightarrow> Msg option \<times> error option" where
  "attempt_outcome X domain qtype w k =
     Exchange X (length (sent w) + k) (Address (attempt_endpoint w k))
       (query_message X domain qtype)"

definition after_attempts :: "Extern \<Rightarrow> string \<Rightarrow> uint16 \<Rightarrow> World \<Rightarrow> nat \<Rightarrow> World" where
  "after_attempts X domain qtype w n =
     w\<lparr>pool := (pool w)\<lparr>index := (index (pool w) + n) mod length (resolvers (pool w))\<rparr>,
       sent := sent w @ map (\<lambda>j. (Address (attempt_endpoint w j), query_message X domain qtype))
                          [0..<n]\<rparr>"

section \<open>Query types (main.go)\<close>

definition typeMap :: "string \<Rightarrow> uint16 option" where
  "typeMap = map_of
     [(''A'', TypeA), (''AAAA'', TypeAAAA), (''CNAME'', TypeCNAME), (''MX'', TypeMX),
      (''NS'', TypeNS), (''TXT'', TypeTXT), (''SOA'', TypeSOA), (''PTR'', TypePTR),
      (''SRV'', TypeSRV)]"

fun parseQueryTypes_loop :: "Extern \<Rightarrow> string list \<Rightarrow> uint16 list \<Rightarrow> error + uint16 list" where
  "parseQueryTypes_loop X [] result = Inr result"
| "parseQueryTypes_loop X (t0 # types) result =
     (let t = TrimSpace X t0 in
        (case typeMap t of
           Some qtype \<Rightarrow> parseQueryTypes_loop X types (result @ [qtype])
         | None \<Rightarrow>
             (case Atoi t of
                Some num \<Rightarrow>
                  if num > 0 \<and> num < 65536
                  then parseQueryTypes_loop X types (result @ [word_of_int num])
                  else Inl (UnknownQueryType t)
              | None \<Rightarrow> Inl (UnknownQueryType t))))"

definition parseQueryTypes :: "Extern \<Rightarrow> string \<Rightarrow> error + uint16 list" where
  "parseQueryTypes X queryTypesStr =
     (case parseQueryTypes_loop X (Split (ToUpper X queryTypesStr) (CHR '','')) [] of
        Inl err \<Rightarrow> Inl err
      | Inr result \<Rightarrow> if length result = 0 then Inr [TypeA] else Inr result)"

section \<open>Wildcard detector (config.go)\<close>

text \<open>
  The detector's own state is its cache; the pool it points to is the one of the
  \<open>World\<close>. The logger is left out.
\<close>

record WildcardDetector =
  cache :: "string \<Rightarrow> bool option"

definition NewWildcardDetector :: WildcardDetector where
  "NewWildcardDetector = \<lparr>cache = Map.empty\<rparr>"

definition charset :: string where
  "charset = ''abcdefghijklmnopqrstuvwxyz0123456789''"

text \<open>
  \<open>rand.Intn(n)\<close> for \<open>n > 0\<close>: the next number drawn, brought into \<open>[0, n)\<close>. The
  reseeding from the clock at the start of \<open>generateRandomString\<close> is part of what the
  numbers \<open>Rand X\<close> are.
\<close>

definition Intn :: "Extern \<Rightarrow> nat \<Rightarrow> World \<Rightarrow> nat \<times> World" where
  "Intn X n w = (Rand X (drawn w) mod n, w\<lparr>drawn := drawn w + 1\<rparr>)"

definition GetRandomResolver :: "Extern \<Rightarrow> World \<Rightarrow> DNSResolver option \<times> World" where
  "GetRandomResolver X w =
     (if length (resolvers (pool w)) = 0 then (None, w)
      else (case Intn X (length (resolvers (pool w))) w of
              (i, w') \<Rightarrow> (Some (resolvers (pool w) ! i), w')))"

fun generateRandomString :: "Extern \<Rightarrow> nat \<Rightarrow> World \<Rightarrow> string \<times> World" where
  "generateRandomString X 0 w = ([], w)"
| "generateRandomString X (Suc n) w =
     (case Intn X (length charset) w of
        (i, w1) \<Rightarrow>
          (case generateRandomString X n w1 of
             (rest, w2) \<Rightarrow> (charset ! i # rest, w2)))"

fun generateRandomSubdomains :: "Extern \<Rightarrow> string \<Rightarrow> nat \<Rightarrow> World \<Rightarrow> string list \<times> World" where
  "generateRandomSubdomains X baseDomain 0 w = ([], w)"
| "generateRandomSubdomains X baseDomain (Suc n) w =
     (case generateRandomString X 12 w of
        (randomString, w1) \<Rightarrow>
          (case generateRandomSubdomains X baseDomain n w1 of
             (subdomains, w2) \<Rightarrow> ((randomString @ ''.'' @ baseDomain) # subdomains, w2)))"

text \<open>The loop of \<open>queryDomain\<close> over the answer section.\<close>

fun queryDomain_answers :: "Extern \<Rightarrow> uint16 \<Rightarrow> RR list \<Rightarrow> string list \<Rightarrow> string list" where
  "queryDomain_answers X qtype [] answers = answers"
| "queryDomain_answers X qtype (rr # rrs) answers =
     queryDomain_answers X qtype rrs
       (if qtype = TypeA then
          (case Data rr of DNS_A a \<Rightarrow> answers @ [IP_String a] | _ \<Rightarrow> answers)
        else if qtype = TypeAAAA then
          (case Data rr of DNS_AAAA aaaa \<Rightarrow> answers @ [IP_String aaaa] | _ \<Rightarrow> answers)
        else if qtype = TypeCNAME then
          (case Data rr of DNS_CNAME target \<Rightarrow> answers @ [target] | _ \<Rightarrow> answers)
        else answers @ [RR_String X rr])"

definition queryDomain :: "Extern \<Rightarrow> string \<Rightarrow> uint16 \<Rightarrow> World \<Rightarrow> string list \<times> World" where
  "queryDomain X domain qtype w =
     (case GetRandomResolver X w of
        (None, w1) \<Rightarrow> ([], w1)
      | (Some resolver, w1) \<Rightarrow>
          (let msg = \<lparr>Qname = Fqdn X domain, Qtype = qtype, RecursionDesired = True\<rparr>;
               w2 = w1\<lparr>sent := sent w1 @ [(Address resolver, msg)]\<rparr>
           in (case Exchange X (length (sent w1)) (Address resolver) msg of
                 (response, Some err) \<Rightarrow> ([], w2)
               | (None, None) \<Rightarrow> ([], w2)
               | (Some response, None) \<Rightarrow>
                   (queryDomain_answers X qtype (Answer response) [], w2))))"

fun sliceEqual_loop :: "string list \<Rightarrow> string list \<Rightarrow> bool" where
  "sliceEqual_loop (x # xs) (y # ys) = (if x \<noteq> y then False else sliceEqual_loop xs ys)"
| "sliceEqual_loop xs ys = True"

definition sliceEqual :: "string list \<Rightarrow> string list \<Rightarrow> bool" where
  "sliceEqual a b = (if length a \<noteq> length b then False else sliceEqual_loop a b)"

text \<open>
  The first loop of \<open>detectWildcard\<close>: one probe after the other; \<open>None\<close> is its early
  \<open>return false\<close> at the first probe without answers.
\<close>

fun detectWildcard_probes ::
  "Extern \<Rightarrow> uint16 \<Rightarrow> string list \<Rightarrow> string list list \<Rightarrow> World
     \<Rightarrow> string list list option \<times> World" where
  "detectWildcard_probes X qtype [] responses w = (Some responses, w)"
| "detectWildcard_probes X qtype (testDomain # rest) responses w =
     (case queryDomain X testDomain qtype w of
        (answers, w1) \<Rightarrow>
          if length answers = 0 then (None, w1)
          else detectWildcard_probes X qtype rest (responses @ [answers]) w1)"

text \<open>The second loop: \<open>responses[1..]\<close> against the first response, up to the first difference.\<close>

fun detectWildcard_consistent :: "string list \<Rightarrow> string list list \<Rightarrow> bool" where
  "detectWildcard_consistent firstResponse [] = True"
| "detectWildcard_consistent firstResponse (r # rs) =
     (if \<not> sliceEqual firstResponse r then False
      else detectWildcard_consistent firstResponse rs)"

definition detectWildcard :: "Extern \<Rightarrow> string \<Rightarrow> uint16 \<Rightarrow> World \<Rightarrow> bool \<times> World" where
  "detectWildcard X baseDomain qtype w =
     (case generateRandomSubdomains X baseDomain 3 w of
        (testSubdomains, w1) \<Rightarrow>
          (case detectWildcard_probes X qtype testSubdomains [] w1 of
             (None, w2) \<Rightarrow> (False, w2)
           | (Some responses, w2) \<Rightarrow>
               (if length responses < 2 then (False, w2)
                else (case responses of
                        [] \<Rightarrow> (False, w2)
                      | firstResponse # others \<Rightarrow>
                          (detectWildcard_consistent firstResponse others
                             \<and> length firstResponse > 0, w2)))))"

definition IsWildcard ::
  "Extern \<Rightarrow> WildcardDetector \<Rightarrow> DNSResult \<Rightarrow> World \<Rightarrow> bool \<times> WildcardDetector \<times> World" where
  "IsWildcard X d result w =
     (case Response result of
        None \<Rightarrow> (False, d, w)
      | Some response \<Rightarrow>
          if length (Answer response) = 0 then (False, d, w)
          else (let domain = TrimSuffix (DNSResult.Domain result) ''.'' in
                  (case EffectiveTLDPlusOne X domain of
                     None \<Rightarrow> (False, d, w)
                   | Some baseDomain \<Rightarrow>
                       (case cache d baseDomain of
                          Some isWildcard \<Rightarrow> (isWildcard, d, w)
                        | None \<Rightarrow>
                            (case detectWildcard X baseDomain (DNSResult.Type result) w of
                               (isWildcard, w') \<Rightarrow>
                                 (isWildcard,
                                  d\<lparr>cache := (cache d)(baseDomain \<mapsto> isWildcard)\<rparr>,
                                  w'))))))"

text \<open>
  The probe protocol in the words of the specification: three probes are made, each
  answer list is sorted, and the verdict is taken from the three sorted lists.
\<close>

definition spec_verdict :: "string list \<Rightarrow> string list \<Rightarrow> string list \<Rightarrow> bool" where
  "spec_verdict a1 a2 a3 =
     (let n1 = sort a1; n2 = sort a2; n3 = sort a3
      in if n1 = [] \<or> n2 = [] \<or> n3 = [] then False
         else if n1 = n2 \<and> n1 = n3 \<and> n2 = n3 \<and> n1 \<noteq> [] then True
         else False)"

definition spec_detectWildcard :: "Extern \<Rightarrow> string \<Rightarrow> uint16 \<Rightarrow> World \<Rightarrow> bool" where
  "spec_detectWildcard X baseDomain qtype w =
     (case generateRandomSubdomains X baseDomain 3 w of
        (testSubdomains, w1) \<Rightarrow>
          (case queryDomain X (testSubdomains ! 0) qtype w1 of
             (a1, w2) \<Rightarrow>
               (case queryDomain X (testSubdomains ! 1) qtype w2 of
                  (a2, w3) \<Rightarrow>
                    (case queryDomain X (testSubdomains ! 2) qtype w3 of
                       (a3, w4) \<Rightarrow> spec_verdict a1 a2 a3))))"

section \<open>Statistics (stats.go)\<close>

text \<open>The six counters are \<open>int64\<close>, changed by atomic additions of 1, which wrap around.\<close>

record Stats =
  totalDomains :: int64
  processedQueries :: int64
  successfulQueries :: int64
  errorQueries :: int64
  noAnswerQueries :: int64
  wildcardQueries :: int64

definition NewStats :: Stats where
  "NewStats = \<lparr>totalDomains = 0, processedQueries = 0, successfulQueries = 0,
                errorQueries = 0, noAnswerQueries = 0, wildcardQueries = 0\<rparr>"

definition IncrementTotal :: "Stats \<Rightarrow> Stats" where
  "IncrementTotal s = s\<lparr>totalDomains := totalDomains s + 1\<rparr>"

definition IncrementProcessed :: "Stats \<Rightarrow> Stats" where
  "IncrementProcessed s = s\<lparr>processedQueries := processedQueries s + 1\<rparr>"

definition IncrementSuccessful :: "Stats \<Rightarrow> Stats" where
  "IncrementSuccessful s = s\<lparr>successfulQueries := successfulQueries s + 1\<rparr>"

definition IncrementErrors :: "Stats \<Rightarrow> Stats" where
  "IncrementErrors s = s\<lparr>errorQueries := errorQueries s + 1\<rparr>"

definition IncrementNoAnswer :: "Stats \<Rightarrow> Stats" where
  "IncrementNoAnswer s = s\<lparr>noAnswerQueries := noAnswerQueries s + 1\<rparr>"

definition IncrementWildcards :: "Stats \<Rightarrow> Stats" where
  "IncrementWildcards s = s\<lparr>wildcardQueries := wildcardQueries s + 1\<rparr>"

definition GetTotal :: "Stats \<Rightarrow> int" where
  "GetTotal s = sint (totalDomains s)"

definition GetProcessed :: "Stats \<Rightarrow> int" where
  "GetProcessed s = sint (processedQueries s)"

section \<open>Output (output.go)\<close>

text \<open>
  The handler is the bytes written to its file so far, its format, and whether it holds
  a CSV writer (which the constructor creates for the format \<open>csv\<close> only).
\<close>

record OutputHandler =
  outFile :: string
  format :: string
  writer :: bool

text \<open>The type switch of \<open>extractRecords\<close>: the value of one resource record.\<close>

definition extractRecords_value :: "Extern \<Rightarrow> RR \<Rightarrow> string" where
  "extractRecords_value X rr =
     (case Data rr of
        DNS_A a \<Rightarrow> IP_String a
      | DNS_AAAA aaaa \<Rightarrow> IP_String aaaa
      | DNS_CNAME target \<Rightarrow> target
      | DNS_MX preference mx \<Rightarrow> showNat (unat preference) @ '' '' @ mx
      | DNS_NS ns \<Rightarrow> ns
      | DNS_TXT txt \<Rightarrow> Join txt '' ''
      | DNS_SOA ns mbox serial refresh retry expire minttl \<Rightarrow>
          ns @ '' '' @ mbox @ '' '' @ showNat (unat serial) @ '' '' @ showNat (unat refresh)
            @ '' '' @ showNat (unat retry) @ '' '' @ showNat (unat expire)
            @ '' '' @ showNat (unat minttl)
      | DNS_PTR ptr \<Rightarrow> ptr
      | DNS_SRV priority weight port target \<Rightarrow>
          showNat (unat priority) @ '' '' @ showNat (unat weight) @ '' ''
            @ showNat (unat port) @ '' '' @ target
      | DNS_Other rdata \<Rightarrow> RR_String X rr)"

fun extractRecords_loop ::
  "Extern \<Rightarrow> DNSResult \<Rightarrow> RR list \<Rightarrow> OutputRecord list \<Rightarrow> OutputRecord list" where
  "extractRecords_loop X result [] records = records"
| "extractRecords_loop X result (rr # rrs) records =
     extractRecords_loop X result rrs
       (records @
          [\<lparr>OutputRecord.Domain = DNSResult.Domain result,
            OutputRecord.Type = TypeToString X (DNSResult.Type result),
            Record = Name (Header rr),
            Value = extractRecords_value X rr,
            TTL = Ttl (Header rr),
            OutputRecord.Resolver = DNSResult.Resolver result\<rparr>])"

text \<open>Reading \<open>result.Response.Answer\<close> of a \<open>nil\<close> response panics.\<close>

definition extractRecords :: "Extern \<Rightarrow> DNSResult \<Rightarrow> OutputRecord list go" where
  "extractRecords X result =
     (case Response result of
        None \<Rightarrow> Panic
      | Some response \<Rightarrow> Return (extractRecords_loop X result (Answer response) []))"

fun writeSimple :: "string \<Rightarrow> OutputRecord list \<Rightarrow> string" where
  "writeSimple f [] = f"
| "writeSimple f (record # records) =
     writeSimple
       (f @ OutputRecord.Domain record @ [CHR 0x09] @ OutputRecord.Type record @ [CHR 0x09]
          @ Value record @ [CHR 0x09] @ showNat (unat (TTL record)) @ [CHR 0x0A])
       records"

fun writeJSON :: "Extern \<Rightarrow> string \<Rightarrow> OutputRecord list \<Rightarrow> string" where
  "writeJSON X f [] = f"
| "writeJSON X f (record # records) =
     (case json_Marshal X record of
        None \<Rightarrow> writeJSON X f records
      | Some data \<Rightarrow> writeJSON X (f @ data @ [CHR 0x0A]) records)"

fun writeCSV_rows :: "Extern \<Rightarrow> string \<Rightarrow> OutputRecord list \<Rightarrow> string" where
  "writeCSV_rows X f [] = f"
| "writeCSV_rows X f (record # records) =
     writeCSV_rows X
       (f @ csv_Write X [OutputRecord.Domain record, OutputRecord.Type record, Record record,
                         Value record, showNat (unat (TTL record)),
                         OutputRecord.Resolver record])
       records"

definition writeCSV :: "Extern \<Rightarrow> OutputHandler \<Rightarrow> OutputRecord list \<Rightarrow> string" where
  "writeCSV X h records = (if writer h then writeCSV_rows X (outFile h) records else outFile h)"

definition WriteResult :: "Extern \<Rightarrow> OutputHandler \<Rightarrow> DNSResult \<Rightarrow> OutputHandler go" where
  "WriteResult X h result =
     (case Response result of
        None \<Rightarrow> Return h
      | Some response \<Rightarrow>
          if length (Answer response) = 0 then Return h
          else (case extractRecords X result of
                  Panic \<Rightarrow> Panic
                | Return records \<Rightarrow>
                    if format h = ''json'' then Return (h\<lparr>outFile := writeJSON X (outFile h) records\<rparr>)
                    else if format h = ''csv'' then Return (h\<lparr>outFile := writeCSV X h records\<rparr>)
                    else Return (h\<lparr>outFile := writeSimple (outFile h) records\<rparr>)))"

section \<open>Result processor (main.go)\<close>

text \<open>
  What the goroutines of a run share: the counters, the detector (\<open>None\<close> when wildcard
  detection is off), the output handler and the world of queries.
\<close>

record Shared =
  stats :: Stats
  wildcardDetector :: "WildcardDetector option"
  outputHandler :: OutputHandler
  world :: World

text \<open>
  One iteration of \<open>resultProcessor\<close> on a received result is two parts: the increment
  of \<open>processed\<close>, and the classification that follows it, which may run the probes of
  the wildcard detector before it changes a second counter.
\<close>

definition resultProcessor_received :: "Shared \<Rightarrow> Shared" where
  "resultProcessor_received S = S\<lparr>stats := IncrementProcessed (stats S)\<rparr>"

definition resultProcessor_classify :: "Extern \<Rightarrow> DNSResult \<Rightarrow> Shared \<Rightarrow> Shared go" where
  "resultProcessor_classify X result S =
     (if Error result \<noteq> None then Return (S\<lparr>stats := IncrementErrors (stats S)\<rparr>)
      else
        (case (case wildcardDetector S of
                 None \<Rightarrow> (False, None, world S)
               | Some d \<Rightarrow>
                   (case IsWildcard X d result (world S) of
                      (v, d', w') \<Rightarrow> (v, Some d', w'))) of
           (isWildcard, d', w') \<Rightarrow>
             (let S1 = S\<lparr>wildcardDetector := d', world := w'\<rparr>
              in if isWildcard then Return (S1\<lparr>stats := IncrementWildcards (stats S1)\<rparr>)
                 else if (case Response result of
                            None \<Rightarrow> False
                          | Some response \<Rightarrow> length (Answer response) > 0)
                 then (let S2 = S1\<lparr>stats := IncrementSuccessful (stats S1)\<rparr>
                       in (case WriteResult X (outputHandler S2) result of
                             Panic \<Rightarrow> Panic
                           | Return h \<Rightarrow> Return (S2\<lparr>outputHandler := h\<rparr>)))
                 else Return (S1\<lparr>stats := IncrementNoAnswer (stats S1)\<rparr>))))"

definition resultProcessor_iteration :: "Extern \<Rightarrow> DNSResult \<Rightarrow> Shared \<Rightarrow> Shared go" where
  "resultProcessor_iteration X result S =
     resultProcessor_classify X result (resultProcessor_received S)"

text \<open>The processor on the results it receives, in order, until the channel is closed.\<close>

fun resultProcessor :: "Extern \<Rightarrow> DNSResult list \<Rightarrow> Shared \<Rightarrow> Shared go" where
  "resultProcessor X [] S = Return S"
| "resultProcessor X (result # results) S =
     (case resultProcessor_iteration X result S of
        Panic \<Rightarrow> Panic
      | Return S' \<Rightarrow> resultProcessor X results S')"

text \<open>
  The states of the counters that the same loop passes through: after every increment
  of \<open>processed\<close> and after every classification.
\<close>

fun resultProcessor_points :: "Extern \<Rightarrow> DNSResult list \<Rightarrow> Shared \<Rightarrow> Stats list" where
  "resultProcessor_points X [] S = []"
| "resultProcessor_points X (result # results) S =
     stats (resultProcessor_received S) #
       (case resultProcessor_classify X result (resultProcessor_received S) of
          Panic \<Rightarrow> []
        | Return S' \<Rightarrow> stats S' # resultProcessor_points X results S')"

definition counters_balanced :: "Stats \<Rightarrow> bool" where
  "counters_balanced s =
     (successfulQueries s + errorQueries s + noAnswerQueries s + wildcardQueries s
        = processedQueries s)"

text \<open>One result has been received and not yet classified.\<close>

definition counters_pending :: "Stats \<Rightarrow> bool" where
  "counters_pending s =
     (successfulQueries s + errorQueries s + noAnswerQueries s + wildcardQueries s + 1
        = processedQueries s)"

section \<open>The pipeline (main.go)\<close>

definition HasPrefix :: "string \<Rightarrow> string \<Rightarrow> bool" where
  "HasPrefix s prefix = (take (length prefix) s = prefix)"

text \<open>
  The goroutines of \<open>processDNSQueries\<close> as an interleaving of their steps. A worker is
  waiting on the domain channel, or inside the loop over the query types of a domain
  with the types still to do, or has returned. The coordinator reads the input, then
  polls the counters, then has returned \<open>nil\<close>. Cancellation and the rate limiter's
  waiting are left out: the runs modelled are those without a signal.
\<close>

datatype Worker = Idle | Querying string "uint16 list" | Exited

datatype Coordinator = Ingesting | Waiting | ReturnedNil

record Pipeline =
  input :: "string list"
  queryTypes :: "uint16 list"
  domainChan :: "string list"
  domainChanClosed :: bool
  resultChan :: "DNSResult list"
  resultChanClosed :: bool
  dnsWorkers :: "Worker list"
  coordinator :: Coordinator
  processorReturned :: bool
  shared :: Shared

text \<open>
  The start of \<open>processDNSQueries\<close>: the query types are parsed, the two channels made
  and the workers and the result processor started. \<open>lines\<close> is the input, line by line.
\<close>

definition processDNSQueries_start ::
  "Extern \<Rightarrow> Config \<Rightarrow> string list \<Rightarrow> Shared \<Rightarrow> error + Pipeline" where
  "processDNSQueries_start X config lines S =
     (case parseQueryTypes X (QueryTypes config) of
        Inl err \<Rightarrow> Inl (InvalidQueryTypes err)
      | Inr qtypes \<Rightarrow>
          Inr \<lparr>input = lines, queryTypes = qtypes,
               domainChan = [], domainChanClosed = False,
               resultChan = [], resultChanClosed = False,
               dnsWorkers = replicate (nat (Workers config)) Idle,
               coordinator = Ingesting, processorReturned = False, shared = S\<rparr>)"

text \<open>
  The next step of the coordinator: one line of input (skipped, or sent to the domain
  channel of capacity \<open>Workers\<close> and counted), the close of the domain channel at the
  end of the input, or one poll of \<open>processed < total\<close>, which closes the result channel
  and returns once it is false. \<open>None\<close>: the coordinator cannot move (the channel is
  full, or it has returned).
\<close>

definition coordinator_step :: "Extern \<Rightarrow> Config \<Rightarrow> Pipeline \<Rightarrow> Pipeline option" where
  "coordinator_step X config s =
     (case coordinator s of
        Ingesting \<Rightarrow>
          (case input s of
             [] \<Rightarrow> Some (s\<lparr>domainChanClosed := True, coordinator := Waiting\<rparr>)
           | line # rest \<Rightarrow>
               (let domain = TrimSpace X line
                in if domain = [] \<or> HasPrefix domain ''#'' then Some (s\<lparr>input := rest\<rparr>)
                   else if int (length (domainChan s)) < Workers config
                   then Some (s\<lparr>input := rest, domainChan := domainChan s @ [domain],
                                shared := (shared s)\<lparr>stats := IncrementTotal (stats (shared s))\<rparr>\<rparr>)
                   else None))
      | Waiting \<Rightarrow>
          if GetProcessed (stats (shared s)) < GetTotal (stats (shared s)) then Some s
          else Some (s\<lparr>resultChanClosed := True, coordinator := ReturnedNil\<rparr>)
      | ReturnedNil \<Rightarrow> None)"

text \<open>
  The next step of worker \<open>i\<close>: a receive from the domain channel, the return when that
  channel is closed and empty, or one query with its send to the result channel of
  capacity \<open>2 * Workers\<close>. \<open>None\<close>: the worker cannot move (also when its query never
  returns), or it panics (a send on the closed result channel).
\<close>

definition dnsWorker_step :: "Extern \<Rightarrow> Config \<Rightarrow> nat \<Rightarrow> Pipeline \<Rightarrow> Pipeline option" where
  "dnsWorker_step X config i s =
     (if length (dnsWorkers s) \<le> i then None
      else
        (case dnsWorkers s ! i of
           Idle \<Rightarrow>
             (case domainChan s of
                [] \<Rightarrow>
                  if domainChanClosed s then Some (s\<lparr>dnsWorkers := (dnsWorkers s)[i := Exited]\<rparr>)
                  else None
              | domain # rest \<Rightarrow>
                  Some (s\<lparr>domainChan := rest,
                          dnsWorkers := (dnsWorkers s)[i := Querying domain (queryTypes s)]\<rparr>))
         | Querying domain [] \<Rightarrow> Some (s\<lparr>dnsWorkers := (dnsWorkers s)[i := Idle]\<rparr>)
         | Querying domain (qtype # qtypes) \<Rightarrow>
             (case performDNSQuery X config domain qtype (world (shared s)) of
                None \<Rightarrow> None
              | Some Panic \<Rightarrow> None
              | Some (Return (result, w')) \<Rightarrow>
                  if resultChanClosed s then None
                  else if int (length (resultChan s)) < Workers config * 2
                  then Some (s\<lparr>resultChan := resultChan s @ [result],
                               dnsWorkers := (dnsWorkers s)[i := Querying domain qtypes],
                               shared := (shared s)\<lparr>world := w'\<rparr>\<rparr>)
                  else None)
         | Exited \<Rightarrow> None))"

text \<open>
  The next step of the result processor: one iteration on the result at the head of the
  result channel, or its return when the channel is closed and empty.
\<close>

definition resultProcessor_step :: "Extern \<Rightarrow> Pipeline \<Rightarrow> Pipeline option" where
  "resultProcessor_step X s =
     (if processorReturned s then None
      else
        (case resultChan s of
           [] \<Rightarrow> if resultChanClosed s then Some (s\<lparr>processorReturned := True\<rparr>) else None
         | result # rest \<Rightarrow>
             (case resultProcessor_iteration X result (shared s) of
                Panic \<Rightarrow> None
              | Return S' \<Rightarrow> Some (s\<lparr>resultChan := rest, shared := S'\<rparr>))))"

datatype Event = CoordinatorStep | WorkerStep nat | ProcessorStep

definition pipeline_step :: "Extern \<Rightarrow> Config \<Rightarrow> Event \<Rightarrow> Pipeline \<Rightarrow> Pipeline option" where
  "pipeline_step X config ev s =
     (case ev of
        CoordinatorStep \<Rightarrow> coordinator_step X config s
      | WorkerStep i \<Rightarrow> dnsWorker_step X config i s
      | ProcessorStep \<Rightarrow> resultProcessor_step X s)"

text \<open>A run under a schedule: which goroutine moves next, step by step.\<close>

fun pipeline_run :: "Extern \<Rightarrow> Config \<Rightarrow> Event list \<Rightarrow> Pipeline \<Rightarrow> Pipeline option" where
  "pipeline_run X config [] s = Some s"
| "pipeline_run X config (ev # evs) s =
     (case pipeline_step X config ev s of
        None \<Rightarrow> None
      | Some s' \<Rightarrow> pipeline_run X config evs s')"

section \<open>Concrete inputs\<close>

text \<open>
  Pools, upstreams, results and configurations at which the theorems below are
  instantiated. \<open>mockExtern ex\<close> is a stand-in for the libraries with \<open>ex\<close> as the
  network: names get their trailing dot, the base domain is the last two labels of a
  name of at least two non-empty labels, and the random numbers are 0, 1, 2, ...
\<close>

definition pool3 :: ResolverPool where
  "pool3 = \<lparr>resolvers = [\<lparr>Address = ''8.8.8.8:53'', ClientTimeout = 5\<rparr>,
                          \<lparr>Address = ''1.1.1.1:53'', ClientTimeout = 5\<rparr>,
                          \<lparr>Address = ''9.9.9.9:53'', ClientTimeout = 5\<rparr>], index = 1\<rparr>"

definition mock_etld1 :: "string \<Rightarrow> string option" where
  "mock_etld1 s =
     (let labels = Split s (CHR ''.'')
      in if length labels < 2 \<or> [] \<in> set labels then None
         else Some (labels ! (length labels - 2) @ ''.'' @ labels ! (length labels - 1)))"

definition mockExtern :: "(nat \<Rightarrow> string \<Rightarrow> Question \<Rightarrow> Msg option \<times> error option) \<Rightarrow> Extern" where
  "mockExtern ex =
     \<lparr>Fqdn = (\<lambda>s. if s \<noteq> [] \<and> last s = CHR ''.'' then s else s @ ''.''),
      EffectiveTLDPlusOne = mock_etld1,
      strings_ToUpper = (\<lambda>s. s),
      strings_TrimSpace = (\<lambda>s. s),
      RR_String = (\<lambda>rr. Name (Header rr)),
      TypeToString = (\<lambda>t. if t = TypeA then ''A'' else if t = TypeAAAA then ''AAAA'' else ''''),
      json_Marshal = (\<lambda>r. None),
      csv_Write = (\<lambda>row. Join row '','' @ [CHR 0x0A]),
      Exchange = ex,
      Rand = (\<lambda>k. k)\<rparr>"

definition rrA :: "string \<Rightarrow> IP \<Rightarrow> RR" where
  "rrA name ip = \<lparr>Header = \<lparr>Name = name, Rrtype = TypeA, Ttl = 300\<rparr>, Data = DNS_A ip\<rparr>"

text \<open>An upstream that answers every name with the same two addresses, in alternating order.\<close>

definition rotatingExchange :: "nat \<Rightarrow> string \<Rightarrow> Question \<Rightarrow> Msg option \<times> error option" where
  "rotatingExchange k addr q =
     (if even k
      then (Some \<lparr>Answer = [rrA (Qname q) [10, 0, 0, 1], rrA (Qname q) [10, 0, 0, 2]]\<rparr>, None)
      else (Some \<lparr>Answer = [rrA (Qname q) [10, 0, 0, 2], rrA (Qname q) [10, 0, 0, 1]]\<rparr>, None))"

definition world1 :: World where
  "world1 = \<lparr>pool = \<lparr>resolvers = [\<lparr>Address = ''192.0.2.1:53'', ClientTimeout = 5\<rparr>], index = 0\<rparr>,
             sent = [], drawn = 0\<rparr>"

definition world0 :: World where
  "world0 = \<lparr>pool = \<lparr>resolvers = [], index = 0\<rparr>, sent = [], drawn = 0\<rparr>"

definition result_wild :: DNSResult where
  "result_wild =
     \<lparr>DNSResult.Domain = ''a.wild.test'', DNSResult.Type = TypeA,
      Response = Some \<lparr>Answer = [rrA ''a.wild.test.'' [10, 0, 0, 1]]\<rparr>,
      Error = None, DNSResult.Resolver = ''192.0.2.1:53''\<rparr>"

text \<open>An upstream that answers every name with one and the same address: a wildcard zone.\<close>

definition constantExchange :: "nat \<Rightarrow> string \<Rightarrow> Question \<Rightarrow> Msg option \<times> error option" where
  "constantExchange k addr q = (Some \<lparr>Answer = [rrA (Qname q) [10, 0, 0, 1]]\<rparr>, None)"

definition result_local :: DNSResult where
  "result_local =
     \<lparr>DNSResult.Domain = ''localhost'', DNSResult.Type = TypeA,
      Response = Some \<lparr>Answer = [rrA ''localhost.'' [127, 0, 0, 1]]\<rparr>,
      Error = None, DNSResult.Resolver = ''192.0.2.1:53''\<rparr>"

definition result_empty :: DNSResult where
  "result_empty =
     \<lparr>DNSResult.Domain = ''empty.test'', DNSResult.Type = TypeA,
      Response = Some \<lparr>Answer = []\<rparr>,
      Error = None, DNSResult.Resolver = ''192.0.2.1:53''\<rparr>"

definition result_failed :: DNSResult where
  "result_failed =
     \<lparr>DNSResult.Domain = ''bad.test'', DNSResult.Type = TypeA,
      Response = None,
      Error = Some (ExchangeError ''i/o timeout''), DNSResult.Resolver = ''''\<rparr>"

definition shared1 :: Shared where
  "shared1 = \<lparr>stats = NewStats, wildcardDetector = Some NewWildcardDetector,
               outputHandler = \<lparr>outFile = '''', format = ''simple'', writer = False\<rparr>,
               world = world1\<rparr>"

text \<open>An upstream whose first two exchanges time out.\<close>

definition flakyExchange :: "nat \<Rightarrow> string \<Rightarrow> Question \<Rightarrow> Msg option \<times> error option" where
  "flakyExchange k addr q =
     (if k < 2 then (None, Some (ExchangeError ''i/o timeout''))
      else (Some \<lparr>Answer = [rrA (Qname q) [10, 0, 0, 1]]\<rparr>, None))"

text \<open>An upstream whose every exchange times out.\<close>

definition failingExchange :: "nat \<Rightarrow> string \<Rightarrow> Question \<Rightarrow> Msg option \<times> error option" where
  "failingExchange k addr q = (None, Some (ExchangeError ''i/o timeout''))"

definition world3 :: World where
  "world3 = \<lparr>pool = pool3, sent = [], drawn = 0\<rparr>"

definition config_retries :: "int \<Rightarrow> Config" where
  "config_retries r = \<lparr>QueryTypes = ''A'', QPS = 100, Timeout = 5, Retries = r, Workers = 1\<rparr>"

definition config_two_types :: Config where
  "config_two_types = \<lparr>QueryTypes = ''A,AAAA'', QPS = 100, Timeout = 5, Retries = 0, Workers = 1\<rparr>"

definition shared0 :: Shared where
  "shared0 = \<lparr>stats = NewStats, wildcardDetector = None,
               outputHandler = \<lparr>outFile = '''', format = ''simple'', writer = False\<rparr>,
               world = world1\<rparr>"

definition example_line :: string where
  "example_line = ''example.com'' @ [CHR 0x09] @ ''A'' @ [CHR 0x09] @ ''10.0.0.1'' @ [CHR 0x09]
                    @ ''300'' @ [CHR 0x0A]"

text \<open>The pipeline for the one input line, and its state when the coordinator has returned.\<close>

definition pipeline0 :: Pipeline where
  "pipeline0 = \<lparr>input = [''example.com''], queryTypes = [TypeA, TypeAAAA],
          domainChan = [], domainChanClosed = False,
          resultChan = [], resultChanClosed = False,
          dnsWorkers = [Idle],
          coordinator = Ingesting, processorReturned = False, shared = shared0\<rparr>"

definition result_example :: DNSResult where
  "result_example = \<lparr>DNSResult.Domain = ''example.com'', DNSResult.Type = TypeA,
              Response = Some \<lparr>Answer = [rrA ''example.com.'' [10, 0, 0, 1]]\<rparr>, Error = None,
              DNSResult.Resolver = ''192.0.2.1:53''\<rparr>"

definition world_sent1 :: World where
  "world_sent1 = world1\<lparr>sent := [(''192.0.2.1:53'',
                \<lparr>Qname = ''example.com.'', Qtype = TypeA, RecursionDesired = True\<rparr>)]\<rparr>"

definition pipeline_end :: Pipeline where
  "pipeline_end =
     \<lparr>input = [], queryTypes = [TypeA, TypeAAAA],
      domainChan = [], domainChanClosed = True,
      resultChan = [], resultChanClosed = True,
      dnsWorkers = [Querying ''example.com'' [TypeAAAA]],
      coordinator = ReturnedNil, processorReturned = False,
      shared = \<lparr>stats = \<lparr>totalDomains = 1, processedQueries = 1, successfulQueries = 1,
                          errorQueries = 0, noAnswerQueries = 0, wildcardQueries = 0\<rparr>,
                wildcardDetector = None,
                outputHandler = \<lparr>outFile = example_line,
                                  format = ''simple'', writer = False\<rparr>,
                world = world_sent1\<rparr>\<rparr>"



section \<open>Properties\<close>

subsection \<open>Round-robin cursor\<close>

lemma GetResolver_in_range:
  assumes "index p < length (resolvers p)"
  shows "GetResolver p =
           Return (Some (resolvers p ! index p),
                   p\<lparr>index := (index p + 1) mod length (resolvers p)\<rparr>)"
  using assms by (auto simp: GetResolver_def)

lemma GetResolver_calls_in_range:
  assumes "index p < length (resolvers p)"
  shows "GetResolver_calls k p =
           Return (map (\<lambda>j. Some (resolvers p ! ((index p + j) mod length (resolvers p)))) [0..<k],
                   p\<lparr>index := (index p + k) mod length (resolvers p)\<rparr>)"
  using assms
proof (induction k arbitrary: p)
  case 0
  then show ?case by simp
next
  case (Suc k)
  let ?n = "length (resolvers p)"
  let ?p' = "p\<lparr>index := (index p + 1) mod ?n\<rparr>"
  have n: "0 < ?n" using Suc.prems by auto
  have p': "index ?p' < length (resolvers ?p')" using n by simp
  have step: "GetResolver p = Return (Some (resolvers p ! index p), ?p')"
    using Suc.prems by (rule GetResolver_in_range)
  have ih: "GetResolver_calls k ?p' =
      Return (map (\<lambda>j. Some (resolvers p ! ((index p + Suc j) mod ?n))) [0..<k],
              p\<lparr>index := (index p + Suc k) mod ?n\<rparr>)"
    using Suc.IH [OF p'] by (simp add: mod_add_left_eq)
  have first: "(index p + 0) mod ?n = index p" using Suc.prems by simp
  have lst: "[0..<Suc k] = 0 # map Suc [0..<k]"
    by (simp add: upt_conv_Cons map_Suc_upt del: upt_Suc)
  have "GetResolver_calls (Suc k) p =
      Return (Some (resolvers p ! index p) #
                map (\<lambda>j. Some (resolvers p ! ((index p + Suc j) mod ?n))) [0..<k],
              p\<lparr>index := (index p + Suc k) mod ?n\<rparr>)"
    using step ih by simp
  also have "Some (resolvers p ! index p) #
                map (\<lambda>j. Some (resolvers p ! ((index p + Suc j) mod ?n))) [0..<k] =
             map (\<lambda>j. Some (resolvers p ! ((index p + j) mod ?n))) [0..<Suc k]"
    unfolding lst using first by (simp add: comp_def)
  finally show ?case .
qed

text \<open>
  C6. In a pool with at least one endpoint whose cursor is in range, \<open>k\<close> calls of
  \<open>GetResolver\<close> leave the cursor at \<open>(initial + k) mod count\<close>, the \<open>k\<close>-th call
  (counting from 1) returns the endpoint at position \<open>(initial + k - 1) mod count\<close>,
  and the cursor is below \<open>count\<close> after every number of calls.
\<close>

theorem GetResolver_round_robin:
  assumes "0 < length (resolvers p)" and "index p < length (resolvers p)"
  shows "\<exists>rs p'. GetResolver_calls k p = Return (rs, p')
           \<and> length rs = k
           \<and> resolvers p' = resolvers p
           \<and> index p' = (index p + k) mod length (resolvers p)
           \<and> index p' < length (resolvers p)
           \<and> (\<forall>i. 1 \<le> i \<and> i \<le> k \<longrightarrow>
                 rs ! (i - 1) = Some (resolvers p ! ((index p + i - 1) mod length (resolvers p))))"
proof -
  let ?n = "length (resolvers p)"
  let ?rs = "map (\<lambda>j. Some (resolvers p ! ((index p + j) mod ?n))) [0..<k]"
  let ?p' = "p\<lparr>index := (index p + k) mod ?n\<rparr>"
  have run: "GetResolver_calls k p = Return (?rs, ?p')"
    using assms(2) by (rule GetResolver_calls_in_range)
  have nth: "?rs ! (i - 1) = Some (resolvers p ! ((index p + i - 1) mod ?n))"
    if "1 \<le> i \<and> i \<le> k" for i
  proof -
    from that have "i - 1 < k" by arith
    then have "?rs ! (i - 1) = Some (resolvers p ! ((index p + (0 + (i - 1))) mod ?n))"
      by (simp del: upt_Suc)
    moreover from that have "index p + (0 + (i - 1)) = index p + i - 1" by arith
    ultimately show ?thesis by simp
  qed
  show ?thesis
    using run assms(1) nth by (intro exI [of _ ?rs] exI [of _ ?p']) simp
qed

theorem GetResolver_round_robin_witness:
  "0 < length (resolvers pool3) \<and> index pool3 < length (resolvers pool3)
   \<and> (\<exists>rs p'. GetResolver_calls 4 pool3 = Return (rs, p')
          \<and> length rs = 4 \<and> index p' = 2
          \<and> rs ! 3 = Some \<lparr>Address = ''1.1.1.1:53'', ClientTimeout = 5\<rparr>)"
proof -
  have a: "0 < length (resolvers pool3)" and b: "index pool3 < length (resolvers pool3)"
    by (simp_all add: pool3_def)
  from GetResolver_round_robin [OF a b, of 4]
  obtain rs p' where r: "GetResolver_calls 4 pool3 = Return (rs, p')" "length rs = 4"
     "index p' = (index pool3 + 4) mod length (resolvers pool3)"
     "\<forall>i. 1 \<le> i \<and> i \<le> 4 \<longrightarrow>
                 rs ! (i - 1) = Some (resolvers pool3 ! ((index pool3 + i - 1) mod length (resolvers pool3)))"
    by blast
  from r(4) [rule_format, of 4] have "rs ! 3 = Some \<lparr>Address = ''1.1.1.1:53'', ClientTimeout = 5\<rparr>"
    by (simp add: pool3_def)
  moreover have "index p' = 2" using r(3) by (simp add: pool3_def)
  ultimately show ?thesis using a b r(1,2) by blast
qed

subsection \<open>Rate limiter\<close>

lemma go_quot_pos: "0 < a \<Longrightarrow> go_quot a 10 = a div 10"
  by (simp add: go_quot_def)

lemma rate_Limit_exact:
  assumes "0 \<le> q" and "q \<le> 2 ^ 53"
  shows "rate_Limit q = q"
proof (cases "q < 2 ^ 53")
  case True
  then have "float64_ulp \<bar>q\<bar> = 1"
    using assms(1) by (subst float64_ulp.simps) simp
  then show ?thesis
    using assms(1) by (auto simp: rate_Limit_def Let_def sgn_if)
next
  case False
  then have q: "q = 2 ^ 53" using assms(2) by simp
  show ?thesis
    unfolding q by code_simp
qed

lemma rate_Limit_above: "rate_Limit 9007199254740993 = 9007199254740992"
  by code_simp

text \<open>
  C8 (amended). For every \<open>qps\<close>, with a non-positive \<open>qps\<close> first replaced by 100,
  \<open>NewRateLimiter\<close> builds a token bucket whose rate is \<open>qps\<close> converted to \<open>float64\<close>,
  which is \<open>qps\<close> itself up to \<open>2 ^ 53\<close>, and whose burst is \<open>max 1 (qps / 10)\<close>;
  \<open>SetLimit\<close> sets the same rate and burst.
\<close>

theorem RateLimiter_rate_and_burst:
  "limit (limiter (NewRateLimiter qps)) = rate_Limit (if qps \<le> 0 then 100 else qps)
   \<and> burst (limiter (NewRateLimiter qps)) = max 1 ((if qps \<le> 0 then 100 else qps) div 10)
   \<and> limit (limiter (SetLimit r qps)) = rate_Limit (if qps \<le> 0 then 100 else qps)
   \<and> burst (limiter (SetLimit r qps)) = max 1 ((if qps \<le> 0 then 100 else qps) div 10)
   \<and> (qps \<le> 2 ^ 53 \<longrightarrow>
        limit (limiter (NewRateLimiter qps)) = (if qps \<le> 0 then 100 else qps)
        \<and> limit (limiter (SetLimit r qps)) = (if qps \<le> 0 then 100 else qps))"
proof -
  have e: "qps \<le> 2 ^ 53 \<longrightarrow>
      rate_Limit (if qps \<le> 0 then 100 else qps) = (if qps \<le> 0 then 100 else qps)"
    by (simp add: rate_Limit_exact)
  have l: "limit (limiter (NewRateLimiter qps)) = rate_Limit (if qps \<le> 0 then 100 else qps)"
    "limit (limiter (SetLimit r qps)) = rate_Limit (if qps \<le> 0 then 100 else qps)"
    by (simp_all add: NewRateLimiter_def SetLimit_def defaultQPS_def Let_def)
  have b: "burst (limiter (NewRateLimiter qps)) = max 1 ((if qps \<le> 0 then 100 else qps) div 10)"
    "burst (limiter (SetLimit r qps)) = max 1 ((if qps \<le> 0 then 100 else qps) div 10)"
    by (simp_all add: NewRateLimiter_def SetLimit_def defaultQPS_def Let_def go_quot_pos max_def)
  show ?thesis
    using e l b by simp
qed

theorem RateLimiter_rate_and_burst_witness:
  "limit (limiter (NewRateLimiter 50)) = 50 \<and> burst (limiter (NewRateLimiter 50)) = 5
   \<and> limit (limiter (SetLimit (NewRateLimiter 50) 0)) = 100
   \<and> burst (limiter (SetLimit (NewRateLimiter 50) 0)) = 10
   \<and> burst (limiter (NewRateLimiter 7)) = 1"
proof -
  have a: "(50 :: int) \<le> 2 ^ 53" and b: "(0 :: int) \<le> 2 ^ 53" by simp_all
  show ?thesis
    using RateLimiter_rate_and_burst [of 50 "NewRateLimiter 50"] a
      RateLimiter_rate_and_burst [of 0 "NewRateLimiter 50"] b
      RateLimiter_rate_and_burst [of 7 "NewRateLimiter 50"]
    by simp
qed

text \<open>
  The claim C8 as stated, rate \<open>qps\<close> for every \<open>qps\<close>, fails above \<open>2 ^ 53\<close>: for
  \<open>qps = 2 ^ 53 + 1\<close> the rate of the limiter is \<open>2 ^ 53\<close>.
\<close>

theorem RateLimiter_rate_rounded_counterexample:
  "limit (limiter (NewRateLimiter 9007199254740993)) = 9007199254740992
   \<and> limit (limiter (NewRateLimiter 9007199254740993)) \<noteq> 9007199254740993"
  by (simp add: NewRateLimiter_def Let_def rate_Limit_above)

subsection \<open>Query types\<close>

lemma Split_not_empty: "Split s sep \<noteq> []"
  by (induction s) (auto split: list.splits)

lemma parseQueryTypes_loop_length:
  "parseQueryTypes_loop X types result = Inr r \<Longrightarrow> length r = length result + length types"
  by (induction types arbitrary: result)
     (auto simp: Let_def split: option.splits if_splits)

lemma parseQueryTypes_default_unreachable:
  "parseQueryTypes_loop X (Split (ToUpper X s) (CHR '','')) [] \<noteq> Inr []"
proof
  assume "parseQueryTypes_loop X (Split (ToUpper X s) (CHR '','')) [] = Inr []"
  then have "length (Split (ToUpper X s) (CHR '','')) = 0"
    using parseQueryTypes_loop_length by fastforce
  then show False using Split_not_empty by simp
qed

text \<open>
  C7. On the empty list of query types, \<open>parseQueryTypes\<close> does not return \<open>[A]\<close>:
  \<open>Split\<close> yields one empty token, which is neither a name of the table nor a number,
  so the function returns its error before the default is reached.
\<close>

theorem parseQueryTypes_empty_string:
  "parseQueryTypes X '''' = Inl (UnknownQueryType '''')"
  by (simp add: parseQueryTypes_def ToUpper_def TrimSpace_def isASCII_def typeMap_def Atoi_def)

subsection \<open>Query with retries\<close>

lemma after_one_pool:
  "resolvers (pool (after_attempts X d q w 1)) = resolvers (pool w)"
  by (simp add: after_attempts_def)

lemma after_one_index:
  assumes "index (pool w) < length (resolvers (pool w))"
  shows "index (pool (after_attempts X d q w 1)) < length (resolvers (pool (after_attempts X d q w 1)))"
proof -
  from assms have "0 < length (resolvers (pool w))" by auto
  then show ?thesis by (simp add: after_attempts_def)
qed

lemma endpoint_shift:
  "attempt_endpoint (after_attempts X d q w 1) k = attempt_endpoint w (Suc k)"
  by (simp add: attempt_endpoint_def after_attempts_def mod_add_left_eq)

lemma outcome_shift:
  "attempt_outcome X d q (after_attempts X d q w 1) k = attempt_outcome X d q w (Suc k)"
proof -
  have "length (sent (after_attempts X d q w 1)) + k = length (sent w) + Suc k"
    by (simp add: after_attempts_def)
  then show ?thesis
    unfolding attempt_outcome_def endpoint_shift by simp
qed

lemma after_shift:
  "after_attempts X d q (after_attempts X d q w 1) n = after_attempts X d q w (Suc n)"
proof -
  define W where "W = after_attempts X d q w 1"
  define f where "f = (\<lambda>j. (Address (attempt_endpoint w j), query_message X d q))"
  have l: "[0..<Suc n] = 0 # map Suc [0..<n]"
    by (simp add: upt_conv_Cons map_Suc_upt del: upt_Suc)
  have e: "(\<lambda>j. (Address (attempt_endpoint W j), query_message X d q)) = f \<circ> Suc"
    unfolding W_def f_def comp_def endpoint_shift by (rule refl)
  have sW: "sent W = sent w @ [f 0]"
    unfolding W_def f_def by (simp add: after_attempts_def)
  have pW: "pool W = (pool w)\<lparr>index := (index (pool w) + 1) mod length (resolvers (pool w))\<rparr>"
    unfolding W_def by (simp add: after_attempts_def)
  have dW: "drawn W = drawn w" "World.more W = World.more w"
    unfolding W_def by (simp_all add: after_attempts_def)
  have "sent (after_attempts X d q W n) = sent W @ map (f \<circ> Suc) [0..<n]"
    unfolding after_attempts_def e by simp
  also have "\<dots> = sent w @ map f [0..<Suc n]"
    unfolding l sW by simp
  also have "\<dots> = sent (after_attempts X d q w (Suc n))"
    unfolding after_attempts_def f_def by simp
  finally have 1: "sent (after_attempts X d q W n) = sent (after_attempts X d q w (Suc n))" .
  have 2: "pool (after_attempts X d q W n) = pool (after_attempts X d q w (Suc n))"
    unfolding after_attempts_def by (simp add: pW mod_add_left_eq)
  have 3: "drawn (after_attempts X d q W n) = drawn (after_attempts X d q w (Suc n))"
    unfolding after_attempts_def by (simp add: dW)
  have 4: "World.more (after_attempts X d q W n) = World.more (after_attempts X d q w (Suc n))"
    unfolding after_attempts_def by (simp add: dW)
  from 2 1 3 4 have "after_attempts X d q W n = after_attempts X d q w (Suc n)"
    by (rule World.equality)
  then show ?thesis unfolding W_def .
qed

lemma after_zero:
  "index (pool w) < length (resolvers (pool w)) \<Longrightarrow> after_attempts X d q w 0 = w"
  by (simp add: after_attempts_def)

lemma int_inc_below:
  "a \<le> r \<Longrightarrow> r < 2 ^ 63 - 1 \<Longrightarrow> int_inc a = a + 1"
  by (simp add: int_inc_def)

lemma int_inc_le:
  "a \<le> 2 ^ 63 - 1 \<Longrightarrow> int_inc a \<le> 2 ^ 63 - 1"
  by (simp add: int_inc_def)

lemma performDNSQuery_loop_step:
  assumes "attempt \<le> Retries config" and "index (pool w) < length (resolvers (pool w))"
    and "Retries config < 2 ^ 63 - 1"
  shows "performDNSQuery_loop X config domain qtype attempt lastErr w =
     (case attempt_outcome X domain qtype w 0 of
        (response, Some err) \<Rightarrow>
          performDNSQuery_loop X config domain qtype (attempt + 1) (Some err)
            (after_attempts X domain qtype w 1)
      | (response, None) \<Rightarrow>
          Some (Return (\<lparr>DNSResult.Domain = domain, DNSResult.Type = qtype,
                         Response = response, Error = None,
                         DNSResult.Resolver = Address (attempt_endpoint w 0)\<rparr>,
                        after_attempts X domain qtype w 1)))"
proof -
  have g: "GetResolver (pool w) =
      Return (Some (attempt_endpoint w 0),
              (pool w)\<lparr>index := (index (pool w) + 1) mod length (resolvers (pool w))\<rparr>)"
    using assms(2) by (simp add: GetResolver_in_range attempt_endpoint_def)
  have i: "int_inc attempt = attempt + 1"
    using assms(1) assms(3) by (rule int_inc_below)
  show ?thesis
    apply (subst performDNSQuery_loop.simps)
    using assms(1)
    by (simp add: g i Let_def attempt_outcome_def query_message_def after_attempts_def
        split: prod.splits option.splits)
qed

lemma performDNSQuery_loop_done:
  assumes "\<not> attempt \<le> Retries config"
  shows "performDNSQuery_loop X config domain qtype attempt lastErr w =
     Some (Return (\<lparr>DNSResult.Domain = domain, DNSResult.Type = qtype, Response = None,
                    Error = lastErr, DNSResult.Resolver = ''''\<rparr>, w))"
  using assms by (subst performDNSQuery_loop.simps) simp

lemma performDNSQuery_loop_all_fail:
  assumes "index (pool w) < length (resolvers (pool w))"
    and "m = nat (Retries config + 1 - attempt)"
    and "\<forall>k<m. snd (attempt_outcome X d q w k) \<noteq> None"
    and "Retries config < 2 ^ 63 - 1"
  shows "performDNSQuery_loop X config d q attempt lastErr w =
     Some (Return (\<lparr>DNSResult.Domain = d, DNSResult.Type = q, Response = None,
              Error = (if m = 0 then lastErr else snd (attempt_outcome X d q w (m - 1))),
              DNSResult.Resolver = ''''\<rparr>,
             after_attempts X d q w m))"
  using assms
proof (induction m arbitrary: attempt lastErr w)
  case 0
  then have "\<not> attempt \<le> Retries config" by simp
  then show ?case
    using "0.prems"(1) by (simp add: performDNSQuery_loop_done after_zero)
next
  case (Suc m)
  let ?W = "after_attempts X d q w 1"
  from Suc.prems(2) have le: "attempt \<le> Retries config" by simp
  from Suc.prems(3) have "snd (attempt_outcome X d q w 0) \<noteq> None" by simp
  then obtain response err where o: "attempt_outcome X d q w 0 = (response, Some err)"
    by (cases "attempt_outcome X d q w 0") auto
  have step: "performDNSQuery_loop X config d q attempt lastErr w =
      performDNSQuery_loop X config d q (attempt + 1) (Some err) ?W"
    using performDNSQuery_loop_step [OF le Suc.prems(1) Suc.prems(4)] o by simp
  have r: "index (pool ?W) < length (resolvers (pool ?W))"
    using Suc.prems(1) by (rule after_one_index)
  have m: "m = nat (Retries config + 1 - (attempt + 1))"
    using Suc.prems(2) by simp
  have f: "\<forall>k<m. snd (attempt_outcome X d q ?W k) \<noteq> None"
    unfolding outcome_shift using Suc.prems(3) by auto
  have ih: "performDNSQuery_loop X config d q (attempt + 1) (Some err) ?W =
     Some (Return (\<lparr>DNSResult.Domain = d, DNSResult.Type = q, Response = None,
              Error = (if m = 0 then Some err else snd (attempt_outcome X d q ?W (m - 1))),
              DNSResult.Resolver = ''''\<rparr>,
             after_attempts X d q ?W m))"
    using r m f Suc.prems(4) by (rule Suc.IH)
  have e: "(if m = 0 then Some err else snd (attempt_outcome X d q ?W (m - 1)))
      = snd (attempt_outcome X d q w (Suc m - 1))"
    unfolding outcome_shift using o by (cases m) simp_all
  show ?case
    unfolding step ih e after_shift by simp
qed

lemma performDNSQuery_loop_first_success:
  assumes "index (pool w) < length (resolvers (pool w))"
    and "k < nat (Retries config + 1 - attempt)"
    and "snd (attempt_outcome X d q w k) = None"
    and "\<forall>j<k. snd (attempt_outcome X d q w j) \<noteq> None"
    and "Retries config < 2 ^ 63 - 1"
  shows "performDNSQuery_loop X config d q attempt lastErr w =
     Some (Return (\<lparr>DNSResult.Domain = d, DNSResult.Type = q,
              Response = fst (attempt_outcome X d q w k), Error = None,
              DNSResult.Resolver = Address (attempt_endpoint w k)\<rparr>,
             after_attempts X d q w (Suc k)))"
  using assms
proof (induction k arbitrary: attempt lastErr w)
  case 0
  from "0.prems"(2) have le: "attempt \<le> Retries config" by simp
  from "0.prems"(3) obtain response where o: "attempt_outcome X d q w 0 = (response, None)"
    by (cases "attempt_outcome X d q w 0") auto
  show ?case
    using performDNSQuery_loop_step [OF le "0.prems"(1) "0.prems"(5)] o by simp
next
  case (Suc k)
  let ?W = "after_attempts X d q w 1"
  from Suc.prems(2) have le: "attempt \<le> Retries config" by simp
  from Suc.prems(4) have "snd (attempt_outcome X d q w 0) \<noteq> None" by simp
  then obtain response err where o: "attempt_outcome X d q w 0 = (response, Some err)"
    by (cases "attempt_outcome X d q w 0") auto
  have step: "performDNSQuery_loop X config d q attempt lastErr w =
      performDNSQuery_loop X config d q (attempt + 1) (Some err) ?W"
    using performDNSQuery_loop_step [OF le Suc.prems(1) Suc.prems(5)] o by simp
  have r: "index (pool ?W) < length (resolvers (pool ?W))"
    using Suc.prems(1) by (rule after_one_index)
  have k: "k < nat (Retries config + 1 - (attempt + 1))"
    using Suc.prems(2) by simp
  have s: "snd (attempt_outcome X d q ?W k) = None"
    unfolding outcome_shift using Suc.prems(3) by simp
  have f: "\<forall>j<k. snd (attempt_outcome X d q ?W j) \<noteq> None"
    unfolding outcome_shift using Suc.prems(4) by auto
  have ih: "performDNSQuery_loop X config d q (attempt + 1) (Some err) ?W =
     Some (Return (\<lparr>DNSResult.Domain = d, DNSResult.Type = q,
              Response = fst (attempt_outcome X d q ?W k), Error = None,
              DNSResult.Resolver = Address (attempt_endpoint ?W k)\<rparr>,
             after_attempts X d q ?W (Suc k)))"
    using r k s f Suc.prems(5) by (rule Suc.IH)
  show ?case
    unfolding step ih outcome_shift endpoint_shift after_shift by simp
qed

lemma performDNSQuery_loop_empty_pool:
  assumes "resolvers (pool w) = []"
    and "m = nat (Retries config + 1 - attempt)"
    and "Retries config < 2 ^ 63 - 1"
  shows "performDNSQuery_loop X config d q attempt lastErr w =
     Some (Return (\<lparr>DNSResult.Domain = d, DNSResult.Type = q, Response = None,
              Error = (if m = 0 then lastErr else Some NoResolversAvailable),
              DNSResult.Resolver = ''''\<rparr>, w))"
  using assms
proof (induction m arbitrary: attempt lastErr)
  case 0
  then have "\<not> attempt \<le> Retries config" by simp
  then show ?case by (simp add: performDNSQuery_loop_done)
next
  case (Suc m)
  from Suc.prems(2) have le: "attempt \<le> Retries config" by simp
  have g: "GetResolver (pool w) = Return (None, pool w)"
    using Suc.prems(1) by (simp add: GetResolver_def)
  have i: "int_inc attempt = attempt + 1"
    using le Suc.prems(3) by (rule int_inc_below)
  have step: "performDNSQuery_loop X config d q attempt lastErr w =
      performDNSQuery_loop X config d q (attempt + 1) (Some NoResolversAvailable) w"
    using le by (subst performDNSQuery_loop.simps) (simp add: g i)
  have m: "m = nat (Retries config + 1 - (attempt + 1))"
    using Suc.prems(2) by simp
  show ?case
    unfolding step using Suc.IH [OF Suc.prems(1) m Suc.prems(3)] by simp
qed

text \<open>
  With \<open>Retries\<close> the largest \<open>int\<close> the condition of the loop holds at every attempt:
  when each attempt fails (an empty pool, or a pool with the cursor in range and an
  exchange that always returns an error) the loop never returns.
\<close>

lemma performDNSQuery_loop_empty_pool_forever:
  assumes "performDNSQuery_loop X config d q attempt lastErr w = Some y"
    and "Retries config = 2 ^ 63 - 1" and "attempt \<le> 2 ^ 63 - 1"
    and "resolvers (pool w) = []"
  shows False
  using assms
proof (induction X config d q attempt lastErr w y rule: performDNSQuery_loop.raw_induct [rotated 1, consumes 1])
  case (1 loop X config d q attempt lastErr w y)
  from "1.prems" have r: "Retries config = 2 ^ 63 - 1" and a: "attempt \<le> 2 ^ 63 - 1"
    and e: "resolvers (pool w) = []"
    by simp_all
  have g: "GetResolver (pool w) = Return (None, pool w)"
    using e by (simp add: GetResolver_def)
  from a r have le: "attempt \<le> Retries config" by simp
  from "1.hyps" have l: "loop X config d q (int_inc attempt) (Some NoResolversAvailable) w = Some y"
    using le by (simp add: g)
  from l r int_inc_le [OF a] e show False by (rule "1.IH")
qed

lemma performDNSQuery_loop_failing_forever:
  assumes "performDNSQuery_loop X config d q attempt lastErr w = Some y"
    and "Retries config = 2 ^ 63 - 1" and "attempt \<le> 2 ^ 63 - 1"
    and "index (pool w) < length (resolvers (pool w))"
    and "\<forall>k a m. snd (Exchange X k a m) \<noteq> None"
  shows False
  using assms
proof (induction X config d q attempt lastErr w y rule: performDNSQuery_loop.raw_induct [rotated 1, consumes 1])
  case (1 loop X config d q attempt lastErr w y)
  from "1.prems" have r: "Retries config = 2 ^ 63 - 1" and a: "attempt \<le> 2 ^ 63 - 1"
    and i: "index (pool w) < length (resolvers (pool w))"
    and f: "\<forall>k a m. snd (Exchange X k a m) \<noteq> None"
    by simp_all
  let ?p = "(pool w)\<lparr>index := (index (pool w) + 1) mod length (resolvers (pool w))\<rparr>"
  let ?r = "resolvers (pool w) ! index (pool w)"
  let ?m = "\<lparr>Qname = Fqdn X d, Qtype = q, RecursionDesired = True\<rparr>"
  let ?w = "w\<lparr>pool := ?p, sent := sent w @ [(Address ?r, ?m)]\<rparr>"
  have g: "GetResolver (pool w) = Return (Some ?r, ?p)"
    using i by (simp add: GetResolver_in_range)
  from a r have le: "attempt \<le> Retries config" by simp
  from f have "snd (Exchange X (length (sent w)) (Address ?r) ?m) \<noteq> None" by blast
  then obtain response err
    where o: "Exchange X (length (sent w)) (Address ?r) ?m = (response, Some err)"
    by (cases "Exchange X (length (sent w)) (Address ?r) ?m") auto
  from "1.hyps" have l: "loop X config d q (int_inc attempt) (Some err) ?w = Some y"
    using le by (simp add: g o Let_def)
  from i have "0 < length (resolvers (pool w))" by linarith
  then have i': "index (pool ?w) < length (resolvers (pool ?w))"
    by simp
  from l r int_inc_le [OF a] i' f show False by (rule "1.IH")
qed

text \<open>
  C5 (amended). With \<open>r\<close> configured retries, \<open>0 \<le> r < 2^63 - 1\<close>, \<open>performDNSQuery\<close>
  returns after at most \<open>r + 1\<close> attempts; attempt \<open>k\<close> (from 0) goes to the endpoint
  that round-robin hands out next, at position \<open>(cursor + k) mod count\<close>. It returns
  the success of the first attempt whose exchange has no error, with that response and
  that endpoint's address; if all \<open>r + 1\<close> attempts fail it returns the failure with the
  error of the last attempt. With an empty pool every attempt fails without an exchange
  and the failure carries "no resolvers available".
\<close>

theorem performDNSQuery_retries:
  assumes "0 \<le> Retries config" and "Retries config < 2 ^ 63 - 1"
  shows "(index (pool w) < length (resolvers (pool w)) \<longrightarrow>
      ((\<forall>k < nat (Retries config + 1). snd (attempt_outcome X domain qtype w k) \<noteq> None) \<longrightarrow>
         performDNSQuery X config domain qtype w =
           Some (Return (\<lparr>DNSResult.Domain = domain, DNSResult.Type = qtype, Response = None,
                    Error = snd (attempt_outcome X domain qtype w (nat (Retries config))),
                    DNSResult.Resolver = ''''\<rparr>,
                   after_attempts X domain qtype w (nat (Retries config + 1)))))
      \<and> (\<forall>k. k < nat (Retries config + 1) \<and> snd (attempt_outcome X domain qtype w k) = None
              \<and> (\<forall>j<k. snd (attempt_outcome X domain qtype w j) \<noteq> None) \<longrightarrow>
         performDNSQuery X config domain qtype w =
           Some (Return (\<lparr>DNSResult.Domain = domain, DNSResult.Type = qtype,
                    Response = fst (attempt_outcome X domain qtype w k), Error = None,
                    DNSResult.Resolver = Address (attempt_endpoint w k)\<rparr>,
                   after_attempts X domain qtype w (Suc k))))
      \<and> (\<exists>result n. n \<le> nat (Retries config + 1)
              \<and> performDNSQuery X config domain qtype w =
                   Some (Return (result, after_attempts X domain qtype w n))))
    \<and> (resolvers (pool w) = [] \<longrightarrow>
         performDNSQuery X config domain qtype w =
           Some (Return (\<lparr>DNSResult.Domain = domain, DNSResult.Type = qtype, Response = None,
                    Error = Some NoResolversAvailable, DNSResult.Resolver = ''''\<rparr>, w)))"
proof (intro conjI impI allI)
  let ?n = "nat (Retries config + 1)"
  have n: "?n = nat (Retries config + 1 - 0)" by simp
  have pos: "?n \<noteq> 0" and last: "?n - 1 = nat (Retries config)"
    using assms(1) by simp_all
  note b = assms(2)
  {
    assume r: "index (pool w) < length (resolvers (pool w))"
      and f: "\<forall>k < ?n. snd (attempt_outcome X domain qtype w k) \<noteq> None"
    show "performDNSQuery X config domain qtype w =
           Some (Return (\<lparr>DNSResult.Domain = domain, DNSResult.Type = qtype, Response = None,
                    Error = snd (attempt_outcome X domain qtype w (nat (Retries config))),
                    DNSResult.Resolver = ''''\<rparr>,
                   after_attempts X domain qtype w ?n))"
      unfolding performDNSQuery_def
      using performDNSQuery_loop_all_fail [OF r n f b, where lastErr = None] pos last by simp
  }
  {
    fix k
    assume r: "index (pool w) < length (resolvers (pool w))"
      and s: "k < ?n \<and> snd (attempt_outcome X domain qtype w k) = None
              \<and> (\<forall>j<k. snd (attempt_outcome X domain qtype w j) \<noteq> None)"
    from s have k: "k < nat (Retries config + 1 - 0)" by simp
    from s have s1: "snd (attempt_outcome X domain qtype w k) = None"
      and s2: "\<forall>j<k. snd (attempt_outcome X domain qtype w j) \<noteq> None" by simp_all
    show "performDNSQuery X config domain qtype w =
           Some (Return (\<lparr>DNSResult.Domain = domain, DNSResult.Type = qtype,
                    Response = fst (attempt_outcome X domain qtype w k), Error = None,
                    DNSResult.Resolver = Address (attempt_endpoint w k)\<rparr>,
                   after_attempts X domain qtype w (Suc k)))"
      unfolding performDNSQuery_def
      using r k s1 s2 b by (rule performDNSQuery_loop_first_success)
  }
  {
    assume r: "index (pool w) < length (resolvers (pool w))"
    show "\<exists>result n. n \<le> ?n
              \<and> performDNSQuery X config domain qtype w =
                   Some (Return (result, after_attempts X domain qtype w n))"
    proof (cases "\<forall>k < ?n. snd (attempt_outcome X domain qtype w k) \<noteq> None")
      case True
      have "performDNSQuery_loop X config domain qtype 0 None w =
          Some (Return (\<lparr>DNSResult.Domain = domain, DNSResult.Type = qtype, Response = None,
              Error = (if ?n = 0 then None
                       else snd (attempt_outcome X domain qtype w (?n - 1))),
              DNSResult.Resolver = ''''\<rparr>,
             after_attempts X domain qtype w ?n))"
        using r n True b by (rule performDNSQuery_loop_all_fail)
      moreover have "?n \<le> ?n" by simp
      ultimately show ?thesis
        unfolding performDNSQuery_def by (intro exI conjI) assumption+
    next
      case False
      then have ex: "\<exists>k. k < ?n \<and> snd (attempt_outcome X domain qtype w k) = None" by simp
      define k where "k = (LEAST k. k < ?n \<and> snd (attempt_outcome X domain qtype w k) = None)"
      have kp: "k < ?n \<and> snd (attempt_outcome X domain qtype w k) = None"
        unfolding k_def using ex by (rule LeastI_ex)
      have kl: "\<forall>j<k. snd (attempt_outcome X domain qtype w j) \<noteq> None"
      proof (intro allI impI)
        fix j assume "j < k"
        then have "\<not> (j < ?n \<and> snd (attempt_outcome X domain qtype w j) = None)"
          unfolding k_def by (rule not_less_Least)
        moreover from \<open>j < k\<close> kp have "j < ?n" by simp
        ultimately show "snd (attempt_outcome X domain qtype w j) \<noteq> None" by simp
      qed
      from kp have k0: "k < nat (Retries config + 1 - 0)" by simp
      from kp have le: "Suc k \<le> ?n" by simp
      from kp have s: "snd (attempt_outcome X domain qtype w k) = None" by simp
      have "performDNSQuery_loop X config domain qtype 0 None w =
           Some (Return (\<lparr>DNSResult.Domain = domain, DNSResult.Type = qtype,
                    Response = fst (attempt_outcome X domain qtype w k), Error = None,
                    DNSResult.Resolver = Address (attempt_endpoint w k)\<rparr>,
                   after_attempts X domain qtype w (Suc k)))"
        using r k0 s kl b by (rule performDNSQuery_loop_first_success)
      with le show ?thesis
        unfolding performDNSQuery_def by (intro exI conjI) assumption+
    qed
  }
  {
    assume e: "resolvers (pool w) = []"
    show "performDNSQuery X config domain qtype w =
           Some (Return (\<lparr>DNSResult.Domain = domain, DNSResult.Type = qtype, Response = None,
                    Error = Some NoResolversAvailable, DNSResult.Resolver = ''''\<rparr>, w))"
      unfolding performDNSQuery_def
      using performDNSQuery_loop_empty_pool [OF e n b, where X = X and d = domain and q = qtype and lastErr = None] pos by simp
  }
qed

lemma upt_0_3: "[0..<3] = [0, 1, 2]" and upt_0_2: "[0..<2] = [0, 1]"
  by (simp_all add: eval_nat_numeral)

theorem performDNSQuery_retries_witness:
  "performDNSQuery (mockExtern flakyExchange) (config_retries 2) ''example.com'' TypeA world3 =
     Some (Return (\<lparr>DNSResult.Domain = ''example.com'', DNSResult.Type = TypeA,
              Response = Some \<lparr>Answer = [rrA ''example.com.'' [10, 0, 0, 1]]\<rparr>, Error = None,
              DNSResult.Resolver = ''8.8.8.8:53''\<rparr>,
             world3\<lparr>pool := pool3\<lparr>index := 1\<rparr>,
                    sent := [(''1.1.1.1:53'', query_message (mockExtern flakyExchange) ''example.com'' TypeA),
                             (''9.9.9.9:53'', query_message (mockExtern flakyExchange) ''example.com'' TypeA),
                             (''8.8.8.8:53'', query_message (mockExtern flakyExchange) ''example.com'' TypeA)]\<rparr>))
   \<and> performDNSQuery (mockExtern flakyExchange) (config_retries 1) ''example.com'' TypeA world3 =
     Some (Return (\<lparr>DNSResult.Domain = ''example.com'', DNSResult.Type = TypeA,
              Response = None, Error = Some (ExchangeError ''i/o timeout''),
              DNSResult.Resolver = ''''\<rparr>,
             world3\<lparr>pool := pool3\<lparr>index := 0\<rparr>,
                    sent := [(''1.1.1.1:53'', query_message (mockExtern flakyExchange) ''example.com'' TypeA),
                             (''9.9.9.9:53'', query_message (mockExtern flakyExchange) ''example.com'' TypeA)]\<rparr>))"
proof -
  let ?X = "mockExtern flakyExchange"
  let ?d = "''example.com''"
  have q: "query_message ?X ?d TypeA = \<lparr>Qname = ''example.com.'', Qtype = TypeA, RecursionDesired = True\<rparr>"
    by (simp add: query_message_def mockExtern_def)
  have x: "Exchange ?X = flakyExchange" by (simp add: mockExtern_def)
  have r: "index (pool world3) < length (resolvers (pool world3))"
    by (simp add: world3_def pool3_def)
  have e0: "attempt_endpoint world3 0 = \<lparr>Address = ''1.1.1.1:53'', ClientTimeout = 5\<rparr>"
    and e1: "attempt_endpoint world3 1 = \<lparr>Address = ''9.9.9.9:53'', ClientTimeout = 5\<rparr>"
    and e2: "attempt_endpoint world3 2 = \<lparr>Address = ''8.8.8.8:53'', ClientTimeout = 5\<rparr>"
    by (simp_all add: attempt_endpoint_def world3_def pool3_def)
  have o0: "attempt_outcome ?X ?d TypeA world3 0 = (None, Some (ExchangeError ''i/o timeout''))"
    and o1: "attempt_outcome ?X ?d TypeA world3 1 = (None, Some (ExchangeError ''i/o timeout''))"
    and o2: "attempt_outcome ?X ?d TypeA world3 2
               = (Some \<lparr>Answer = [rrA ''example.com.'' [10, 0, 0, 1]]\<rparr>, None)"
    by (simp_all add: attempt_outcome_def x flakyExchange_def q world3_def)
  have a3: "after_attempts ?X ?d TypeA world3 (Suc 2) =
      world3\<lparr>pool := pool3\<lparr>index := 1\<rparr>,
             sent := [(''1.1.1.1:53'', query_message ?X ?d TypeA),
                      (''9.9.9.9:53'', query_message ?X ?d TypeA),
                      (''8.8.8.8:53'', query_message ?X ?d TypeA)]\<rparr>"
    unfolding after_attempts_def using e0 e1 e2
    by (simp add: upt_0_3 world3_def pool3_def)
  have a2: "after_attempts ?X ?d TypeA world3 (nat (Retries (config_retries 1) + 1)) =
      world3\<lparr>pool := pool3\<lparr>index := 0\<rparr>,
             sent := [(''1.1.1.1:53'', query_message ?X ?d TypeA),
                      (''9.9.9.9:53'', query_message ?X ?d TypeA)]\<rparr>"
    unfolding after_attempts_def using e0 e1
    by (simp add: config_retries_def upt_0_2 world3_def pool3_def)
  have c2: "0 \<le> Retries (config_retries 2)" and c1: "0 \<le> Retries (config_retries 1)"
    and b2: "Retries (config_retries 2) < 2 ^ 63 - 1"
    and b1: "Retries (config_retries 1) < 2 ^ 63 - 1"
    by (simp_all add: config_retries_def)
  have h2: "2 < nat (Retries (config_retries 2) + 1)
      \<and> snd (attempt_outcome ?X ?d TypeA world3 2) = None
      \<and> (\<forall>j<2. snd (attempt_outcome ?X ?d TypeA world3 j) \<noteq> None)"
    using o0 o1 o2 by (auto simp: config_retries_def less_Suc_eq numeral_2_eq_2)
  have h1: "\<forall>k < nat (Retries (config_retries 1) + 1).
      snd (attempt_outcome ?X ?d TypeA world3 k) \<noteq> None"
    using o0 o1 by (auto simp: config_retries_def less_Suc_eq numeral_2_eq_2)
  have l1: "snd (attempt_outcome ?X ?d TypeA world3 (nat (Retries (config_retries 1))))
      = Some (ExchangeError ''i/o timeout'')"
    using o1 by (simp add: config_retries_def)
  from performDNSQuery_retries [OF c2 b2, where X = "?X" and domain = "?d" and qtype = TypeA
      and w = world3] r h2
  have 1: "performDNSQuery ?X (config_retries 2) ?d TypeA world3 =
           Some (Return (\<lparr>DNSResult.Domain = ?d, DNSResult.Type = TypeA,
                    Response = fst (attempt_outcome ?X ?d TypeA world3 2), Error = None,
                    DNSResult.Resolver = Address (attempt_endpoint world3 2)\<rparr>,
                   after_attempts ?X ?d TypeA world3 (Suc 2)))"
    by blast
  from performDNSQuery_retries [OF c1 b1, where X = "?X" and domain = "?d" and qtype = TypeA
      and w = world3] r h1
  have 2: "performDNSQuery ?X (config_retries 1) ?d TypeA world3 =
           Some (Return (\<lparr>DNSResult.Domain = ?d, DNSResult.Type = TypeA, Response = None,
                    Error = snd (attempt_outcome ?X ?d TypeA world3 (nat (Retries (config_retries 1)))),
                    DNSResult.Resolver = ''''\<rparr>,
                   after_attempts ?X ?d TypeA world3 (nat (Retries (config_retries 1) + 1))))"
    by blast
  show ?thesis
    unfolding 1 2 a3 a2 l1 o2 e2 by simp
qed

text \<open>
  C5, counterexample. With \<open>retries = 2^63 - 1\<close> the claim promises at most \<open>2^63\<close>
  attempts and then a failure with the last error. The loop condition
  \<open>attempt <= config.Retries\<close> cannot become false: on the pool of three endpoints with
  an upstream that always times out, and on the empty pool, \<open>performDNSQuery\<close> never
  returns.
\<close>

theorem performDNSQuery_never_returns_counterexample:
  "performDNSQuery (mockExtern failingExchange) (config_retries (2 ^ 63 - 1))
     ''example.com'' TypeA world3 = None
   \<and> performDNSQuery (mockExtern failingExchange) (config_retries (2 ^ 63 - 1))
     ''example.com'' TypeA world0 = None"
proof -
  let ?X = "mockExtern failingExchange"
  let ?c = "config_retries (2 ^ 63 - 1)"
  have c: "Retries ?c = 2 ^ 63 - 1" by (simp add: config_retries_def)
  have a: "(0::int) \<le> 2 ^ 63 - 1" by simp
  have f: "\<forall>k a m. snd (Exchange ?X k a m) \<noteq> None"
    by (simp add: mockExtern_def failingExchange_def)
  have r: "index (pool world3) < length (resolvers (pool world3))"
    by (simp add: world3_def pool3_def)
  have e: "resolvers (pool world0) = []"
    by (simp add: world0_def)
  have 1: "performDNSQuery_loop ?X ?c ''example.com'' TypeA 0 None world3 = None"
  proof (cases "performDNSQuery_loop ?X ?c ''example.com'' TypeA 0 None world3")
    case None
    then show ?thesis .
  next
    case (Some y)
    from Some c a r f have False by (rule performDNSQuery_loop_failing_forever)
    then show ?thesis ..
  qed
  have 2: "performDNSQuery_loop ?X ?c ''example.com'' TypeA 0 None world0 = None"
  proof (cases "performDNSQuery_loop ?X ?c ''example.com'' TypeA 0 None world0")
    case None
    then show ?thesis .
  next
    case (Some y)
    from Some c a e have False by (rule performDNSQuery_loop_empty_pool_forever)
    then show ?thesis ..
  qed
  show ?thesis
    unfolding performDNSQuery_def using 1 2 by simp
qed

subsection \<open>Wildcard detector\<close>

lemma generateRandomString_world:
  "snd (generateRandomString X n w) = w\<lparr>drawn := drawn w + n\<rparr>"
proof (induction n arbitrary: w)
  case 0
  then show ?case by simp
next
  case (Suc n)
  have "snd (generateRandomString X n (w\<lparr>drawn := drawn w + 1\<rparr>))
          = w\<lparr>drawn := drawn w + 1 + n\<rparr>"
    using Suc.IH [of "w\<lparr>drawn := drawn w + 1\<rparr>"] by simp
  then show ?case
    by (auto simp: Intn_def split: prod.splits)
qed

lemma generateRandomString_label:
  "length (fst (generateRandomString X n w)) = n
   \<and> set (fst (generateRandomString X n w)) \<subseteq> set charset"
proof (induction n arbitrary: w)
  case 0
  then show ?case by simp
next
  case (Suc n)
  have "Rand X (drawn w) mod length charset < length charset"
    by (simp add: charset_def)
  then have "charset ! (Rand X (drawn w) mod length charset) \<in> set charset"
    by (rule nth_mem)
  with Suc.IH [of "w\<lparr>drawn := drawn w + 1\<rparr>"] show ?case
    by (auto simp: Intn_def split: prod.splits)
qed

lemma generateRandomSubdomains_world:
  "snd (generateRandomSubdomains X B n w) = w\<lparr>drawn := drawn w + 12 * n\<rparr>"
proof (induction n arbitrary: w)
  case 0
  then show ?case by simp
next
  case (Suc n)
  have s: "snd (generateRandomString X 12 w) = w\<lparr>drawn := drawn w + 12\<rparr>"
    by (rule generateRandomString_world)
  show ?case
    using s Suc.IH [of "w\<lparr>drawn := drawn w + 12\<rparr>"]
    by (auto split: prod.splits simp del: generateRandomString.simps)
qed

lemma generateRandomSubdomains_labels:
  "length (fst (generateRandomSubdomains X B n w)) = n
   \<and> list_all (\<lambda>s. \<exists>l. s = l @ ''.'' @ B \<and> length l = 12 \<and> set l \<subseteq> set charset)
        (fst (generateRandomSubdomains X B n w))"
proof (induction n arbitrary: w)
  case 0
  then show ?case by simp
next
  case (Suc n)
  obtain l w1 where g: "generateRandomString X 12 w = (l, w1)" by (cases "generateRandomString X 12 w")
  have l: "length l = 12 \<and> set l \<subseteq> set charset"
    using generateRandomString_label [of X 12 w] g by simp
  obtain ss w2 where h: "generateRandomSubdomains X B n w1 = (ss, w2)"
    by (cases "generateRandomSubdomains X B n w1")
  show ?case
    using g h l Suc.IH [of w1]
    by (simp del: generateRandomString.simps)
qed

lemma queryDomain_empty_pool:
  "resolvers (pool w) = [] \<Longrightarrow> queryDomain X domain qtype w = ([], w)"
  by (simp add: queryDomain_def GetRandomResolver_def)

lemma detectWildcard_empty_pool:
  assumes "resolvers (pool w) = []"
  shows "detectWildcard X B qtype w = (False, w\<lparr>drawn := drawn w + 36\<rparr>)"
proof -
  obtain subs w1 where g: "generateRandomSubdomains X B 3 w = (subs, w1)"
    by (cases "generateRandomSubdomains X B 3 w")
  have w1: "w1 = w\<lparr>drawn := drawn w + 36\<rparr>"
    using generateRandomSubdomains_world [of X B 3 w] g by simp
  have "length subs = 3"
    using generateRandomSubdomains_labels [of X B 3 w] g by simp
  then obtain s rest where subs: "subs = s # rest"
    by (cases subs) auto
  have "resolvers (pool w1) = []" using assms w1 by simp
  then have q: "queryDomain X s qtype w1 = ([], w1)"
    by (rule queryDomain_empty_pool)
  show ?thesis
    unfolding detectWildcard_def g subs using q w1 by simp
qed

lemma sliceEqual_loop_iff: "length a = length b \<Longrightarrow> sliceEqual_loop a b = (a = b)"
  by (induction a b rule: sliceEqual_loop.induct) auto

lemma sliceEqual_iff: "sliceEqual a b = (a = b)"
  by (auto simp: sliceEqual_def sliceEqual_loop_iff)

lemma detectWildcard_probes_three:
  assumes "queryDomain X s1 qtype w1 = (a1, w2)"
    and "queryDomain X s2 qtype w2 = (a2, w3)"
    and "queryDomain X s3 qtype w3 = (a3, w4)"
  shows "detectWildcard_probes X qtype [s1, s2, s3] [] w1 =
           (if a1 = [] then (None, w2)
            else if a2 = [] then (None, w3)
            else if a3 = [] then (None, w4)
            else (Some [a1, a2, a3], w4))"
  using assms by simp

lemma three_elements:
  assumes "length xs = 3"
  shows "xs = [xs ! 0, xs ! 1, xs ! 2]"
proof -
  from assms obtain a b c where "xs = [a, b, c]"
    by (cases xs; cases "tl xs"; cases "tl (tl xs)") auto
  then show ?thesis by simp
qed

lemma detectWildcard_verdict:
  assumes g: "generateRandomSubdomains X B 3 w = (subs, w1)"
    and q1: "queryDomain X (subs ! 0) qtype w1 = (a1, w2)"
    and q2: "queryDomain X (subs ! 1) qtype w2 = (a2, w3)"
    and q3: "queryDomain X (subs ! 2) qtype w3 = (a3, w4)"
  shows "detectWildcard X B qtype w =
           (if a1 = [] then (False, w2)
            else if a2 = [] then (False, w3)
            else if a3 = [] then (False, w4)
            else (a1 = a2 \<and> a1 = a3, w4))"
proof -
  have "length subs = 3"
    using generateRandomSubdomains_labels [of X B 3 w] g by simp
  then have subs: "subs = [subs ! 0, subs ! 1, subs ! 2]"
    by (rule three_elements)
  have p: "detectWildcard_probes X qtype subs [] w1 =
           (if a1 = [] then (None, w2)
            else if a2 = [] then (None, w3)
            else if a3 = [] then (None, w4)
            else (Some [a1, a2, a3], w4))"
    using detectWildcard_probes_three [OF q1 q2 q3] subs by metis
  show ?thesis
    unfolding detectWildcard_def g using p by (auto simp: sliceEqual_iff)
qed

lemma ip1: "IP_String [10, 0, 0, 1] = ''10.0.0.1''"
  by (simp add: IP_String_def To4_def dottedQuad_def showNat.simps)

lemma ip2: "IP_String [10, 0, 0, 2] = ''10.0.0.2''"
  by (simp add: IP_String_def To4_def dottedQuad_def showNat.simps)

lemma queryDomain_rotating:
  assumes "resolvers (pool w) = resolvers (pool world1)"
  shows "queryDomain (mockExtern rotatingExchange) s TypeA w =
     ((if even (length (sent w)) then [''10.0.0.1'', ''10.0.0.2''] else [''10.0.0.2'', ''10.0.0.1'']),
      w\<lparr>drawn := drawn w + 1,
        sent := sent w @ [(''192.0.2.1:53'',
           \<lparr>Qname = Fqdn (mockExtern rotatingExchange) s, Qtype = TypeA, RecursionDesired = True\<rparr>)]\<rparr>)"
proof -
  have r: "GetRandomResolver (mockExtern rotatingExchange) w =
      (Some \<lparr>Address = ''192.0.2.1:53'', ClientTimeout = 5\<rparr>, w\<lparr>drawn := drawn w + 1\<rparr>)"
    using assms by (simp add: GetRandomResolver_def Intn_def world1_def)
  have e: "Exchange (mockExtern rotatingExchange) = rotatingExchange"
    by (simp add: mockExtern_def)
  show ?thesis
    unfolding queryDomain_def r
    by (simp add: e rotatingExchange_def Let_def rrA_def ip1 ip2)
qed

lemma queryDomain_constant:
  assumes "resolvers (pool w) = resolvers (pool world1)"
  shows "queryDomain (mockExtern constantExchange) s TypeA w =
     ([''10.0.0.1''],
      w\<lparr>drawn := drawn w + 1,
        sent := sent w @ [(''192.0.2.1:53'',
           \<lparr>Qname = Fqdn (mockExtern constantExchange) s, Qtype = TypeA, RecursionDesired = True\<rparr>)]\<rparr>)"
proof -
  have r: "GetRandomResolver (mockExtern constantExchange) w =
      (Some \<lparr>Address = ''192.0.2.1:53'', ClientTimeout = 5\<rparr>, w\<lparr>drawn := drawn w + 1\<rparr>)"
    using assms by (simp add: GetRandomResolver_def Intn_def world1_def)
  have e: "Exchange (mockExtern constantExchange) = constantExchange"
    by (simp add: mockExtern_def)
  show ?thesis
    unfolding queryDomain_def r
    by (simp add: e constantExchange_def Let_def rrA_def ip1)
qed

text \<open>
  C1 (amended). For a result with answers whose base domain \<open>B\<close> is not cached, the
  detector draws three labels of twelve characters of \<open>charset\<close> and probes
  \<open>label.B\<close> one after the other, up to the first probe without answers. If a probe
  has no answers the verdict is not-wildcard; else, if the three answer lists are equal
  as they came (element by element, in the order received, not sorted), the verdict is
  wildcard; otherwise it is not-wildcard. The verdict is stored under \<open>B\<close>.
\<close>

theorem IsWildcard_probe_verdict:
  assumes r: "Response result = Some m" "Answer m \<noteq> []"
    and b: "EffectiveTLDPlusOne X (TrimSuffix (DNSResult.Domain result) ''.'') = Some B"
    and c: "cache d B = None"
    and g: "generateRandomSubdomains X B 3 w = (subs, w1)"
    and q1: "queryDomain X (subs ! 0) (DNSResult.Type result) w1 = (a1, w2)"
    and q2: "queryDomain X (subs ! 1) (DNSResult.Type result) w2 = (a2, w3)"
    and q3: "queryDomain X (subs ! 2) (DNSResult.Type result) w3 = (a3, w4)"
  shows "length subs = 3
    \<and> list_all (\<lambda>s. \<exists>l. s = l @ ''.'' @ B \<and> length l = 12 \<and> set l \<subseteq> set charset) subs
    \<and> IsWildcard X d result w =
         (if a1 = [] then (False, d\<lparr>cache := (cache d)(B \<mapsto> False)\<rparr>, w2)
          else if a2 = [] then (False, d\<lparr>cache := (cache d)(B \<mapsto> False)\<rparr>, w3)
          else if a3 = [] then (False, d\<lparr>cache := (cache d)(B \<mapsto> False)\<rparr>, w4)
          else (a1 = a2 \<and> a1 = a3,
                d\<lparr>cache := (cache d)(B \<mapsto> (a1 = a2 \<and> a1 = a3))\<rparr>, w4))"
proof -
  have l: "length subs = 3
    \<and> list_all (\<lambda>s. \<exists>l. s = l @ ''.'' @ B \<and> length l = 12 \<and> set l \<subseteq> set charset) subs"
    using generateRandomSubdomains_labels [of X B 3 w] g by simp
  have v: "detectWildcard X B (DNSResult.Type result) w =
           (if a1 = [] then (False, w2)
            else if a2 = [] then (False, w3)
            else if a3 = [] then (False, w4)
            else (a1 = a2 \<and> a1 = a3, w4))"
    using g q1 q2 q3 by (rule detectWildcard_verdict)
  have i: "IsWildcard X d result w =
      (case detectWildcard X B (DNSResult.Type result) w of
         (isWildcard, w') \<Rightarrow> (isWildcard, d\<lparr>cache := (cache d)(B \<mapsto> isWildcard)\<rparr>, w'))"
    using r b c by (simp add: IsWildcard_def)
  show ?thesis
    using l unfolding i v by simp
qed

theorem IsWildcard_probe_verdict_witness:
  "fst (IsWildcard (mockExtern constantExchange) NewWildcardDetector result_wild world1) = True
   \<and> cache (fst (snd (IsWildcard (mockExtern constantExchange) NewWildcardDetector
                         result_wild world1))) ''wild.test'' = Some True
   \<and> length (sent (snd (snd (IsWildcard (mockExtern constantExchange) NewWildcardDetector
                         result_wild world1)))) = 3"
proof -
  let ?X = "mockExtern constantExchange"
  have r: "Response result_wild = Some \<lparr>Answer = [rrA ''a.wild.test.'' [10, 0, 0, 1]]\<rparr>"
    "Answer \<lparr>Answer = [rrA ''a.wild.test.'' [10, 0, 0, 1]]\<rparr> \<noteq> []"
    by (simp_all add: result_wild_def)
  have b: "EffectiveTLDPlusOne ?X (TrimSuffix (DNSResult.Domain result_wild) ''.'') = Some ''wild.test''"
    by (simp add: mockExtern_def result_wild_def TrimSuffix_def mock_etld1_def)
  have c: "cache NewWildcardDetector ''wild.test'' = None"
    by (simp add: NewWildcardDetector_def)
  have t: "DNSResult.Type result_wild = TypeA" by (simp add: result_wild_def)
  obtain subs w1 where g: "generateRandomSubdomains ?X ''wild.test'' 3 world1 = (subs, w1)"
    by (cases "generateRandomSubdomains ?X ''wild.test'' 3 world1")
  have w1: "w1 = world1\<lparr>drawn := drawn world1 + 36\<rparr>"
    using generateRandomSubdomains_world [of ?X "''wild.test''" 3 world1] g by simp
  obtain a1 w2 where q1: "queryDomain ?X (subs ! 0) (DNSResult.Type result_wild) w1 = (a1, w2)"
    by (cases "queryDomain ?X (subs ! 0) (DNSResult.Type result_wild) w1")
  obtain a2 w3 where q2: "queryDomain ?X (subs ! 1) (DNSResult.Type result_wild) w2 = (a2, w3)"
    by (cases "queryDomain ?X (subs ! 1) (DNSResult.Type result_wild) w2")
  obtain a3 w4 where q3: "queryDomain ?X (subs ! 2) (DNSResult.Type result_wild) w3 = (a3, w4)"
    by (cases "queryDomain ?X (subs ! 2) (DNSResult.Type result_wild) w3")
  have p1: "resolvers (pool w1) = resolvers (pool world1)" "length (sent w1) = 0"
    using w1 by (simp_all add: world1_def)
  have r1: "a1 = [''10.0.0.1'']"
    and p2: "resolvers (pool w2) = resolvers (pool world1)" "length (sent w2) = 1"
    using q1 p1 by (auto simp: t queryDomain_constant [OF p1(1)])
  have r2: "a2 = [''10.0.0.1'']"
    and p3: "resolvers (pool w3) = resolvers (pool world1)" "length (sent w3) = 2"
    using q2 p2 by (auto simp: t queryDomain_constant [OF p2(1)])
  have r3: "a3 = [''10.0.0.1'']" and p4: "length (sent w4) = 3"
    using q3 p3 by (auto simp: t queryDomain_constant [OF p3(1)])
  show ?thesis
    using IsWildcard_probe_verdict [OF r b c g q1 q2 q3] r1 r2 r3 p4 by simp
qed

text \<open>
  The claim C1 as stated, with sorted answer lists, fails: an upstream that returns the
  same two addresses in alternating order is a wildcard by the sorted comparison and
  not a wildcard for \<open>detectWildcard\<close>.
\<close>

theorem detectWildcard_unsorted_counterexample:
  "fst (detectWildcard (mockExtern rotatingExchange) ''wild.test'' TypeA world1)
     \<noteq> spec_detectWildcard (mockExtern rotatingExchange) ''wild.test'' TypeA world1"
proof -
  let ?X = "mockExtern rotatingExchange"
  obtain subs w1 where g: "generateRandomSubdomains ?X ''wild.test'' 3 world1 = (subs, w1)"
    by (cases "generateRandomSubdomains ?X ''wild.test'' 3 world1")
  have w1: "w1 = world1\<lparr>drawn := drawn world1 + 36\<rparr>"
    using generateRandomSubdomains_world [of ?X "''wild.test''" 3 world1] g by simp
  obtain a1 w2 where q1: "queryDomain ?X (subs ! 0) TypeA w1 = (a1, w2)"
    by (cases "queryDomain ?X (subs ! 0) TypeA w1")
  obtain a2 w3 where q2: "queryDomain ?X (subs ! 1) TypeA w2 = (a2, w3)"
    by (cases "queryDomain ?X (subs ! 1) TypeA w2")
  obtain a3 w4 where q3: "queryDomain ?X (subs ! 2) TypeA w3 = (a3, w4)"
    by (cases "queryDomain ?X (subs ! 2) TypeA w3")
  have p1: "resolvers (pool w1) = resolvers (pool world1)" "length (sent w1) = 0"
    using w1 by (simp_all add: world1_def)
  have r1: "a1 = [''10.0.0.1'', ''10.0.0.2'']"
    and p2: "resolvers (pool w2) = resolvers (pool world1)" "length (sent w2) = 1"
    using q1 p1 by (auto simp: queryDomain_rotating [OF p1(1)])
  have r2: "a2 = [''10.0.0.2'', ''10.0.0.1'']"
    and p3: "resolvers (pool w3) = resolvers (pool world1)" "length (sent w3) = 2"
    using q2 p2 by (auto simp: queryDomain_rotating [OF p2(1)])
  have r3: "a3 = [''10.0.0.1'', ''10.0.0.2'']"
    using q3 p3 by (auto simp: queryDomain_rotating [OF p3(1)])
  have code: "fst (detectWildcard ?X ''wild.test'' TypeA world1) = False"
    using detectWildcard_verdict [OF g q1 q2 q3] by (simp add: r1 r2 r3)
  have s2: "sort a2 = [''10.0.0.1'', ''10.0.0.2'']" unfolding r2 by simp
  have s1: "sort a1 = [''10.0.0.1'', ''10.0.0.2'']" unfolding r1 by simp
  have s3: "sort a3 = [''10.0.0.1'', ''10.0.0.2'']" unfolding r3 by simp
  have spec: "spec_detectWildcard ?X ''wild.test'' TypeA world1 = True"
    unfolding spec_detectWildcard_def g using q1 q2 q3 by (simp add: spec_verdict_def s1 s2 s3)
  show ?thesis using code spec by simp
qed

text \<open>
  C4 (amended). When \<open>EffectiveTLDPlusOne\<close> cannot parse the domain of a result,
  \<open>IsWildcard\<close> returns not-wildcard and leaves the cache and the world as they are.
  When the pool is empty, so that the endpoint chosen for a probe is \<open>nil\<close>, and the
  base domain of a result with answers is not cached, \<open>IsWildcard\<close> returns
  not-wildcard without any exchange, and it stores that verdict in the cache under the
  base domain.
\<close>

theorem IsWildcard_failure_cases:
  "(EffectiveTLDPlusOne X (TrimSuffix (DNSResult.Domain result) ''.'') = None
      \<longrightarrow> IsWildcard X d result w = (False, d, w))
   \<and> (Response result = Some m \<and> Answer m \<noteq> []
        \<and> EffectiveTLDPlusOne X (TrimSuffix (DNSResult.Domain result) ''.'') = Some B
        \<and> cache d B = None \<and> resolvers (pool w) = []
      \<longrightarrow> IsWildcard X d result w
            = (False, d\<lparr>cache := (cache d)(B \<mapsto> False)\<rparr>, w\<lparr>drawn := drawn w + 36\<rparr>)
          \<and> sent (w\<lparr>drawn := drawn w + 36\<rparr>) = sent w)"
proof (intro conjI impI)
  assume "EffectiveTLDPlusOne X (TrimSuffix (DNSResult.Domain result) ''.'') = None"
  then show "IsWildcard X d result w = (False, d, w)"
    by (simp add: IsWildcard_def split: option.splits)
next
  assume a: "Response result = Some m \<and> Answer m \<noteq> []
        \<and> EffectiveTLDPlusOne X (TrimSuffix (DNSResult.Domain result) ''.'') = Some B
        \<and> cache d B = None \<and> resolvers (pool w) = []"
  then have "detectWildcard X B (DNSResult.Type result) w = (False, w\<lparr>drawn := drawn w + 36\<rparr>)"
    by (simp add: detectWildcard_empty_pool)
  with a show "IsWildcard X d result w
            = (False, d\<lparr>cache := (cache d)(B \<mapsto> False)\<rparr>, w\<lparr>drawn := drawn w + 36\<rparr>)"
    by (simp add: IsWildcard_def)
next
  show "sent (w\<lparr>drawn := drawn w + 36\<rparr>) = sent w" by simp
qed

theorem IsWildcard_failure_cases_witness:
  "IsWildcard (mockExtern constantExchange) NewWildcardDetector result_local world1
     = (False, NewWildcardDetector, world1)
   \<and> IsWildcard (mockExtern constantExchange) NewWildcardDetector result_wild world0
     = (False, NewWildcardDetector\<lparr>cache := (cache NewWildcardDetector)(''wild.test'' \<mapsto> False)\<rparr>,
        world0\<lparr>drawn := drawn world0 + 36\<rparr>)"
proof -
  let ?X = "mockExtern constantExchange"
  have a: "EffectiveTLDPlusOne ?X (TrimSuffix (DNSResult.Domain result_local) ''.'') = None"
    by (simp add: mockExtern_def result_local_def TrimSuffix_def mock_etld1_def)
  have b: "Response result_wild = Some \<lparr>Answer = [rrA ''a.wild.test.'' [10, 0, 0, 1]]\<rparr>
      \<and> Answer \<lparr>Answer = [rrA ''a.wild.test.'' [10, 0, 0, 1]]\<rparr> \<noteq> []
      \<and> EffectiveTLDPlusOne ?X (TrimSuffix (DNSResult.Domain result_wild) ''.'') = Some ''wild.test''
      \<and> cache NewWildcardDetector ''wild.test'' = None \<and> resolvers (pool world0) = []"
    by (simp add: mockExtern_def result_wild_def TrimSuffix_def mock_etld1_def
        NewWildcardDetector_def world0_def)
  from IsWildcard_failure_cases [where X = "?X" and result = result_local
      and d = NewWildcardDetector and w = world1] a
  have 1: "IsWildcard ?X NewWildcardDetector result_local world1 = (False, NewWildcardDetector, world1)"
    by blast
  from IsWildcard_failure_cases [where X = "?X" and result = result_wild
      and d = NewWildcardDetector and w = world0 and B = "''wild.test''"
      and m = "\<lparr>Answer = [rrA ''a.wild.test.'' [10, 0, 0, 1]]\<rparr>"] b
  have 2: "IsWildcard ?X NewWildcardDetector result_wild world0
     = (False, NewWildcardDetector\<lparr>cache := (cache NewWildcardDetector)(''wild.test'' \<mapsto> False)\<rparr>,
        world0\<lparr>drawn := drawn world0 + 36\<rparr>)"
    by blast
  from 1 2 show ?thesis by (rule conjI)
qed

text \<open>
  The claim C4 as stated, that nothing is cached when the endpoint of a probe is \<open>nil\<close>,
  fails: with an empty pool the cache holds the verdict \<open>False\<close> afterwards.
\<close>

theorem IsWildcard_empty_pool_counterexample:
  "resolvers (pool world0) = []
   \<and> cache NewWildcardDetector ''wild.test'' = None
   \<and> cache (fst (snd (IsWildcard (mockExtern constantExchange) NewWildcardDetector
                         result_wild world0))) ''wild.test'' = Some False"
proof -
  let ?X = "mockExtern constantExchange"
  have e: "resolvers (pool world0) = []" by (simp add: world0_def)
  have b: "EffectiveTLDPlusOne ?X (TrimSuffix (DNSResult.Domain result_wild) ''.'') = Some ''wild.test''"
    by (simp add: mockExtern_def result_wild_def TrimSuffix_def mock_etld1_def)
  have d: "detectWildcard ?X ''wild.test'' (DNSResult.Type result_wild) world0
             = (False, world0\<lparr>drawn := drawn world0 + 36\<rparr>)"
    using e by (rule detectWildcard_empty_pool)
  have "IsWildcard ?X NewWildcardDetector result_wild world0 =
     (False, NewWildcardDetector\<lparr>cache := (cache NewWildcardDetector)(''wild.test'' \<mapsto> False)\<rparr>,
      world0\<lparr>drawn := drawn world0 + 36\<rparr>)"
    unfolding IsWildcard_def using b d
    by (simp add: result_wild_def NewWildcardDetector_def rrA_def)
  then show ?thesis using e by (simp add: NewWildcardDetector_def)
qed

subsection \<open>Result processor\<close>

lemma IsWildcard_no_answer_aux:
  assumes "Response result = None \<or> (\<exists>m. Response result = Some m \<and> Answer m = [])"
  shows "IsWildcard X d result w = (False, d, w)"
  using assms by (auto simp: IsWildcard_def)

lemma WriteResult_returns: "\<exists>h'. WriteResult X h result = Return h'"
  by (simp add: WriteResult_def extractRecords_def split: option.splits)

lemma resultProcessor_classify_cases:
  "\<exists>S'. resultProcessor_classify X result S = Return S'
     \<and> (stats S' = IncrementErrors (stats S) \<or> stats S' = IncrementWildcards (stats S)
          \<or> stats S' = IncrementSuccessful (stats S) \<or> stats S' = IncrementNoAnswer (stats S))"
proof (cases "Error result \<noteq> None")
  case True
  then show ?thesis by (simp add: resultProcessor_classify_def)
next
  case False
  obtain v d' w' where t: "(case wildcardDetector S of
                 None \<Rightarrow> (False, None, world S)
               | Some d \<Rightarrow>
                   (case IsWildcard X d result (world S) of
                      (v, d', w') \<Rightarrow> (v, Some d', w'))) = (v, d', w')"
    by (metis prod_cases3)
  let ?S1 = "S\<lparr>wildcardDetector := d', world := w'\<rparr>"
  let ?S2 = "?S1\<lparr>stats := IncrementSuccessful (stats ?S1)\<rparr>"
  obtain h where h: "WriteResult X (outputHandler ?S2) result = Return h"
    using WriteResult_returns by blast
  show ?thesis
    using False t h unfolding resultProcessor_classify_def
    by (simp add: Let_def)
qed

lemma resultProcessor_iteration_cases:
  "\<exists>S'. resultProcessor_iteration X result S = Return S'
     \<and> (stats S' = IncrementErrors (IncrementProcessed (stats S))
          \<or> stats S' = IncrementWildcards (IncrementProcessed (stats S))
          \<or> stats S' = IncrementSuccessful (IncrementProcessed (stats S))
          \<or> stats S' = IncrementNoAnswer (IncrementProcessed (stats S)))"
  using resultProcessor_classify_cases [of X result "resultProcessor_received S"]
  by (simp add: resultProcessor_iteration_def resultProcessor_received_def)

lemma balanced_after_category:
  assumes "counters_balanced s"
    and "s' = IncrementErrors (IncrementProcessed s) \<or> s' = IncrementWildcards (IncrementProcessed s)
          \<or> s' = IncrementSuccessful (IncrementProcessed s) \<or> s' = IncrementNoAnswer (IncrementProcessed s)"
  shows "counters_balanced s' \<and> processedQueries s' = processedQueries s + 1"
  using assms
  by (auto simp: counters_balanced_def IncrementErrors_def IncrementWildcards_def
      IncrementSuccessful_def IncrementNoAnswer_def IncrementProcessed_def ac_simps)

lemma pending_after_received:
  "counters_balanced s \<Longrightarrow> counters_pending (IncrementProcessed s)"
  by (simp add: counters_balanced_def counters_pending_def IncrementProcessed_def ac_simps)

lemma resultProcessor_balanced:
  assumes "counters_balanced (stats S)"
  shows "\<exists>S'. resultProcessor X results S = Return S'
           \<and> counters_balanced (stats S')
           \<and> processedQueries (stats S') = processedQueries (stats S) + of_nat (length results)"
  using assms
proof (induction results arbitrary: S)
  case Nil
  then show ?case by simp
next
  case (Cons result results)
  obtain S1 where it: "resultProcessor_iteration X result S = Return S1"
    and cat: "stats S1 = IncrementErrors (IncrementProcessed (stats S))
          \<or> stats S1 = IncrementWildcards (IncrementProcessed (stats S))
          \<or> stats S1 = IncrementSuccessful (IncrementProcessed (stats S))
          \<or> stats S1 = IncrementNoAnswer (IncrementProcessed (stats S))"
    using resultProcessor_iteration_cases by blast
  have b1: "counters_balanced (stats S1)"
    and p1: "processedQueries (stats S1) = processedQueries (stats S) + 1"
    using balanced_after_category [OF Cons.prems cat] by simp_all
  obtain S' where run: "resultProcessor X results S1 = Return S'"
    and b': "counters_balanced (stats S')"
    and p': "processedQueries (stats S') = processedQueries (stats S1) + of_nat (length results)"
    using Cons.IH [OF b1] by blast
  have "resultProcessor X (result # results) S = Return S'"
    using it run by simp
  moreover have "processedQueries (stats S')
      = processedQueries (stats S) + of_nat (length (result # results))"
    using p' p1 by simp
  ultimately show ?case using b' by blast
qed

lemma pending_not_balanced: "counters_pending s \<Longrightarrow> \<not> counters_balanced s"
  by (auto simp: counters_pending_def counters_balanced_def)

lemma resultProcessor_points_alternate:
  assumes "counters_balanced (stats S)"
  shows "length (resultProcessor_points X results S) = 2 * length results
    \<and> (\<forall>i < length results.
          counters_pending (resultProcessor_points X results S ! (2 * i))
          \<and> counters_balanced (resultProcessor_points X results S ! (2 * i + 1)))"
  using assms
proof (induction results arbitrary: S)
  case Nil
  then show ?case by simp
next
  case (Cons result results)
  obtain S1 where it: "resultProcessor_iteration X result S = Return S1"
    and cat: "stats S1 = IncrementErrors (IncrementProcessed (stats S))
          \<or> stats S1 = IncrementWildcards (IncrementProcessed (stats S))
          \<or> stats S1 = IncrementSuccessful (IncrementProcessed (stats S))
          \<or> stats S1 = IncrementNoAnswer (IncrementProcessed (stats S))"
    using resultProcessor_iteration_cases by blast
  have b1: "counters_balanced (stats S1)"
    using balanced_after_category [OF Cons.prems cat] by simp
  have c: "resultProcessor_classify X result (resultProcessor_received S) = Return S1"
    using it by (simp add: resultProcessor_iteration_def)
  have m: "counters_pending (stats (resultProcessor_received S))"
    using pending_after_received [OF Cons.prems] by (simp add: resultProcessor_received_def)
  let ?rest = "resultProcessor_points X results S1"
  have pts: "resultProcessor_points X (result # results) S
      = stats (resultProcessor_received S) # stats S1 # ?rest"
    using c by simp
  have ih: "length ?rest = 2 * length results"
    "\<forall>i < length results. counters_pending (?rest ! (2 * i))
          \<and> counters_balanced (?rest ! (2 * i + 1))"
    using Cons.IH [OF b1] by simp_all
  have "counters_pending ((stats (resultProcessor_received S) # stats S1 # ?rest) ! (2 * i))
      \<and> counters_balanced ((stats (resultProcessor_received S) # stats S1 # ?rest) ! (2 * i + 1))"
    if "i < length (result # results)" for i
  proof (cases i)
    case 0
    then show ?thesis using m b1 by simp
  next
    case (Suc j)
    with that have "j < length results" by simp
    then show ?thesis using ih(2) Suc by simp
  qed
  then show ?case
    unfolding pts using ih(1) by simp
qed

text \<open>
  C3 (amended). On every received result the processor increments \<open>processed\<close> once and
  then exactly one of the four category counters. So
  \<open>successful + errors + no_answer + wildcard = processed\<close> holds whenever the processor
  has finished a result (from a balanced start, after any number of results), and
  between the increment of \<open>processed\<close> and the classification of the same result
  \<open>processed\<close> is ahead of the sum by exactly one, so that the equation does not hold
  there: the states the loop passes through are by turns one ahead and balanced.
\<close>

theorem resultProcessor_counters:
  "(\<exists>S'. resultProcessor_iteration X result S = Return S'
      \<and> (stats S' = IncrementErrors (IncrementProcessed (stats S))
          \<or> stats S' = IncrementWildcards (IncrementProcessed (stats S))
          \<or> stats S' = IncrementSuccessful (IncrementProcessed (stats S))
          \<or> stats S' = IncrementNoAnswer (IncrementProcessed (stats S))))
   \<and> (counters_balanced (stats S) \<longrightarrow>
        counters_pending (stats (resultProcessor_received S))
        \<and> \<not> counters_balanced (stats (resultProcessor_received S))
        \<and> (\<exists>S'. resultProcessor_classify X result (resultProcessor_received S) = Return S'
               \<and> counters_balanced (stats S'))
        \<and> (\<exists>S'. resultProcessor X results S = Return S'
               \<and> counters_balanced (stats S')
               \<and> processedQueries (stats S') = processedQueries (stats S) + of_nat (length results))
        \<and> length (resultProcessor_points X results S) = 2 * length results
        \<and> (\<forall>i < length results.
              counters_pending (resultProcessor_points X results S ! (2 * i))
              \<and> \<not> counters_balanced (resultProcessor_points X results S ! (2 * i))
              \<and> counters_balanced (resultProcessor_points X results S ! (2 * i + 1))))"
proof (intro conjI impI)
  show "\<exists>S'. resultProcessor_iteration X result S = Return S'
      \<and> (stats S' = IncrementErrors (IncrementProcessed (stats S))
          \<or> stats S' = IncrementWildcards (IncrementProcessed (stats S))
          \<or> stats S' = IncrementSuccessful (IncrementProcessed (stats S))
          \<or> stats S' = IncrementNoAnswer (IncrementProcessed (stats S)))"
    by (rule resultProcessor_iteration_cases)
next
  assume b: "counters_balanced (stats S)"
  show p: "counters_pending (stats (resultProcessor_received S))"
    using pending_after_received [OF b] by (simp add: resultProcessor_received_def)
  then show "\<not> counters_balanced (stats (resultProcessor_received S))"
    by (rule pending_not_balanced)
  obtain S1 where it: "resultProcessor_iteration X result S = Return S1"
    and cat: "stats S1 = IncrementErrors (IncrementProcessed (stats S))
          \<or> stats S1 = IncrementWildcards (IncrementProcessed (stats S))
          \<or> stats S1 = IncrementSuccessful (IncrementProcessed (stats S))
          \<or> stats S1 = IncrementNoAnswer (IncrementProcessed (stats S))"
    using resultProcessor_iteration_cases by blast
  have "counters_balanced (stats S1)"
    using balanced_after_category [OF b cat] by simp
  with it show "\<exists>S'. resultProcessor_classify X result (resultProcessor_received S) = Return S'
               \<and> counters_balanced (stats S')"
    by (auto simp: resultProcessor_iteration_def)
  show "\<exists>S'. resultProcessor X results S = Return S'
               \<and> counters_balanced (stats S')
               \<and> processedQueries (stats S') = processedQueries (stats S) + of_nat (length results)"
    using b by (rule resultProcessor_balanced)
  show "length (resultProcessor_points X results S) = 2 * length results"
    using resultProcessor_points_alternate [OF b] by simp
  show "\<forall>i < length results.
              counters_pending (resultProcessor_points X results S ! (2 * i))
              \<and> \<not> counters_balanced (resultProcessor_points X results S ! (2 * i))
              \<and> counters_balanced (resultProcessor_points X results S ! (2 * i + 1))"
    using resultProcessor_points_alternate [OF b, of X results] pending_not_balanced by blast
qed

theorem resultProcessor_counters_witness:
  "counters_balanced (stats shared1)
   \<and> counters_pending (stats (resultProcessor_received shared1))
   \<and> \<not> counters_balanced (stats (resultProcessor_received shared1))
   \<and> (\<exists>S'. resultProcessor (mockExtern constantExchange) [result_empty, result_failed] shared1
              = Return S'
           \<and> counters_balanced (stats S') \<and> processedQueries (stats S') = 2)
   \<and> length (resultProcessor_points (mockExtern constantExchange)
                [result_empty, result_failed] shared1) = 4
   \<and> counters_pending (resultProcessor_points (mockExtern constantExchange)
                          [result_empty, result_failed] shared1 ! 2)
   \<and> counters_balanced (resultProcessor_points (mockExtern constantExchange)
                          [result_empty, result_failed] shared1 ! 3)"
proof -
  let ?X = "mockExtern constantExchange"
  let ?rs = "[result_empty, result_failed]"
  have b: "counters_balanced (stats shared1)"
    by (simp add: shared1_def NewStats_def counters_balanced_def)
  have p: "processedQueries (stats shared1) = 0"
    by (simp add: shared1_def NewStats_def)
  from resultProcessor_counters [of ?X result_empty shared1 ?rs] b
  have r: "counters_pending (stats (resultProcessor_received shared1))"
    "\<not> counters_balanced (stats (resultProcessor_received shared1))"
    "\<exists>S'. resultProcessor ?X ?rs shared1 = Return S'
               \<and> counters_balanced (stats S')
               \<and> processedQueries (stats S') = processedQueries (stats shared1) + of_nat (length ?rs)"
    "length (resultProcessor_points ?X ?rs shared1) = 2 * length ?rs"
    "\<forall>i < length ?rs.
              counters_pending (resultProcessor_points ?X ?rs shared1 ! (2 * i))
              \<and> \<not> counters_balanced (resultProcessor_points ?X ?rs shared1 ! (2 * i))
              \<and> counters_balanced (resultProcessor_points ?X ?rs shared1 ! (2 * i + 1))"
    by blast+
  from r(5) [rule_format, of 1]
  have i1: "counters_pending (resultProcessor_points ?X ?rs shared1 ! 2)"
    "counters_balanced (resultProcessor_points ?X ?rs shared1 ! 3)"
    by simp_all
  from r(3) have r3: "\<exists>S'. resultProcessor ?X ?rs shared1 = Return S'
           \<and> counters_balanced (stats S') \<and> processedQueries (stats S') = 2"
    by (simp add: p)
  from r(4) have r4: "length (resultProcessor_points ?X ?rs shared1) = 4" by simp
  from b r(1) r(2) r3 r4 i1 show ?thesis by blast
qed

text \<open>
  The claim C3 as stated, at every point of a run, fails: after the increment of
  \<open>processed\<close> for the first result and before its classification, the sum of the
  category counters is 0 and \<open>processed\<close> is 1.
\<close>

theorem resultProcessor_unbalanced_counterexample:
  "counters_balanced (stats shared1)
   \<and> \<not> list_all counters_balanced
         (resultProcessor_points (mockExtern constantExchange) [result_failed] shared1)"
  by (simp add: shared1_def NewStats_def counters_balanced_def resultProcessor_received_def
      IncrementProcessed_def)

text \<open>
  C10. For a result without a response or with an empty answer section, \<open>IsWildcard\<close>
  returns \<open>False\<close> at once: no probe is sent, no random number drawn, and the cache is
  as before. The result processor, which asks the detector first, therefore counts
  such a result as an error or as no-answer, never as a wildcard.
\<close>

theorem no_answer_not_wildcard:
  assumes "Response result = None \<or> (\<exists>m. Response result = Some m \<and> Answer m = [])"
  shows "IsWildcard X d result w = (False, d, w)
    \<and> resultProcessor_iteration X result S =
        Return (S\<lparr>stats := (if Error result \<noteq> None
                             then IncrementErrors (IncrementProcessed (stats S))
                             else IncrementNoAnswer (IncrementProcessed (stats S)))\<rparr>)
    \<and> wildcardQueries (if Error result \<noteq> None
                             then IncrementErrors (IncrementProcessed (stats S))
                             else IncrementNoAnswer (IncrementProcessed (stats S)))
        = wildcardQueries (stats S)"
proof -
  have i: "IsWildcard X d result w = (False, d, w)" for d w
    using assms by (rule IsWildcard_no_answer_aux)
  have n: "(case Response result of None \<Rightarrow> False
            | Some response \<Rightarrow> length (Answer response) > 0) = False"
    using assms by auto
  have "resultProcessor_iteration X result S =
        Return (S\<lparr>stats := (if Error result \<noteq> None
                             then IncrementErrors (IncrementProcessed (stats S))
                             else IncrementNoAnswer (IncrementProcessed (stats S)))\<rparr>)"
    unfolding resultProcessor_iteration_def resultProcessor_classify_def resultProcessor_received_def
    by (cases "wildcardDetector S") (simp_all add: i n Let_def)
  then show ?thesis
    using i by (simp add: IncrementErrors_def IncrementNoAnswer_def IncrementProcessed_def)
qed

theorem no_answer_not_wildcard_witness:
  "(Response result_empty = None \<or> (\<exists>m. Response result_empty = Some m \<and> Answer m = []))
   \<and> IsWildcard (mockExtern constantExchange) NewWildcardDetector result_empty world1
        = (False, NewWildcardDetector, world1)
   \<and> resultProcessor_iteration (mockExtern constantExchange) result_empty shared1
        = Return (shared1\<lparr>stats := IncrementNoAnswer (IncrementProcessed NewStats)\<rparr>)"
proof -
  have a: "Response result_empty = None \<or> (\<exists>m. Response result_empty = Some m \<and> Answer m = [])"
    by (simp add: result_empty_def)
  have e: "Error result_empty = None" by (simp add: result_empty_def)
  have s: "stats shared1 = NewStats" by (simp add: shared1_def)
  from no_answer_not_wildcard [OF a, of "mockExtern constantExchange" NewWildcardDetector world1 shared1]
  show ?thesis using a by (simp add: e s)
qed

subsection \<open>Output\<close>

text \<open>\<open>showNat n\<close> is the decimal numeral of \<open>n\<close>: digits only, and read back it is \<open>n\<close>.\<close>

lemma digit_char_value:
  assumes "n < 10"
  shows "digitVal (''0123456789'' ! n) = int n \<and> isDigit (''0123456789'' ! n)"
proof -
  from assms have "n = 0 \<or> n = 1 \<or> n = 2 \<or> n = 3 \<or> n = 4 \<or> n = 5 \<or> n = 6 \<or> n = 7
      \<or> n = 8 \<or> n = 9"
    by arith
  then show ?thesis
    by (elim disjE) (simp_all add: digitVal_def isDigit_def)
qed

lemma showNat_decimal:
  "foldl (\<lambda>a c. 10 * a + digitVal c) 0 (showNat n) = int n \<and> list_all isDigit (showNat n)"
proof (induction n rule: showNat.induct)
  case (1 n)
  show ?case
  proof (cases "n < 10")
    case True
    then show ?thesis
      using digit_char_value [OF True] by (subst (1 2) showNat.simps) simp
  next
    case False
    have m: "n mod 10 < 10" by simp
    have s: "showNat n = showNat (n div 10) @ [''0123456789'' ! (n mod 10)]"
      using False by (subst showNat.simps) simp
    have "int n = 10 * int (n div 10) + int (n mod 10)"
      by (simp add: zdiv_int zmod_int)
    then show ?thesis
      unfolding s using "1.IH" [OF False] digit_char_value [OF m] by simp
  qed
qed

lemma extractRecords_loop_map:
  "extractRecords_loop X result rrs records =
     records @ map (\<lambda>rr. \<lparr>OutputRecord.Domain = DNSResult.Domain result,
            OutputRecord.Type = TypeToString X (DNSResult.Type result),
            Record = Name (Header rr),
            Value = extractRecords_value X rr,
            TTL = Ttl (Header rr),
            OutputRecord.Resolver = DNSResult.Resolver result\<rparr>) rrs"
  by (induction rrs arbitrary: records) simp_all

lemma writeSimple_lines:
  "writeSimple f records =
     f @ concat (map (\<lambda>r. Join [OutputRecord.Domain r, OutputRecord.Type r, Value r,
                                 showNat (unat (TTL r))] [CHR 0x09] @ [CHR 0x0A]) records)"
  by (induction records arbitrary: f) simp_all

lemma WriteResult_simple:
  assumes "Response result = Some m" and "Answer m \<noteq> []"
    and "format h \<noteq> ''json''" and "format h \<noteq> ''csv''"
  shows "WriteResult X h result =
     Return (h\<lparr>outFile := outFile h @ concat (map (\<lambda>rr.
        Join [DNSResult.Domain result, TypeToString X (DNSResult.Type result),
              extractRecords_value X rr, showNat (unat (Ttl (Header rr)))] [CHR 0x09]
          @ [CHR 0x0A]) (Answer m))\<rparr>)"
  using assms
  by (simp add: WriteResult_def extractRecords_def extractRecords_loop_map writeSimple_lines
      comp_def)








subsection \<open>The pipeline\<close>

lemma parse_two_types: "parseQueryTypes X ''A,AAAA'' = Inr [TypeA, TypeAAAA]"
  by (simp add: parseQueryTypes_def ToUpper_def TrimSpace_def isASCII_def typeMap_def toUpperChar_def
      isSpace_def)

lemma start_two_types:
  "processDNSQueries_start (mockExtern constantExchange) config_two_types [''example.com''] shared0 =
     Inr \<lparr>input = [''example.com''], queryTypes = [TypeA, TypeAAAA],
          domainChan = [], domainChanClosed = False,
          resultChan = [], resultChanClosed = False,
          dnsWorkers = [Idle],
          coordinator = Ingesting, processorReturned = False, shared = shared0\<rparr>"
  by (simp add: processDNSQueries_start_def config_two_types_def parse_two_types)

lemma query_once:
  "performDNSQuery (mockExtern constantExchange) config_two_types ''example.com'' TypeA world1 =
     Some (Return (\<lparr>DNSResult.Domain = ''example.com'', DNSResult.Type = TypeA,
              Response = Some \<lparr>Answer = [rrA ''example.com.'' [10, 0, 0, 1]]\<rparr>, Error = None,
              DNSResult.Resolver = ''192.0.2.1:53''\<rparr>,
             world1\<lparr>sent := [(''192.0.2.1:53'',
                \<lparr>Qname = ''example.com.'', Qtype = TypeA, RecursionDesired = True\<rparr>)]\<rparr>))"
  unfolding performDNSQuery_def
  by (subst performDNSQuery_loop.simps)
     (simp add: config_two_types_def world1_def GetResolver_def mockExtern_def
        constantExchange_def Let_def)

lemma run1:
  "pipeline_step (mockExtern constantExchange) config_two_types CoordinatorStep pipeline0 =
     Some (pipeline0\<lparr>input := [], domainChan := [''example.com''],
             shared := shared0\<lparr>stats := IncrementTotal NewStats\<rparr>\<rparr>)"
  by (simp add: pipeline_step_def coordinator_step_def pipeline0_def TrimSpace_def isASCII_def isSpace_def
      HasPrefix_def config_two_types_def shared0_def)

lemma run2:
  "pipeline_step (mockExtern constantExchange) config_two_types CoordinatorStep
     (pipeline0\<lparr>input := [], domainChan := [''example.com''],
             shared := shared0\<lparr>stats := IncrementTotal NewStats\<rparr>\<rparr>) =
     Some (pipeline0\<lparr>input := [], domainChan := [''example.com''],
             shared := shared0\<lparr>stats := IncrementTotal NewStats\<rparr>,
             domainChanClosed := True, coordinator := Waiting\<rparr>)"
  by (simp add: pipeline_step_def coordinator_step_def pipeline0_def)

lemma run3:
  "pipeline_step (mockExtern constantExchange) config_two_types (WorkerStep 0)
     (pipeline0\<lparr>input := [], domainChan := [''example.com''],
             shared := shared0\<lparr>stats := IncrementTotal NewStats\<rparr>,
             domainChanClosed := True, coordinator := Waiting\<rparr>) =
     Some (pipeline0\<lparr>input := [], domainChan := [],
             shared := shared0\<lparr>stats := IncrementTotal NewStats\<rparr>,
             domainChanClosed := True, coordinator := Waiting,
             dnsWorkers := [Querying ''example.com'' [TypeA, TypeAAAA]]\<rparr>)"
  by (simp add: pipeline_step_def dnsWorker_step_def pipeline0_def)

lemma run4:
  "pipeline_step (mockExtern constantExchange) config_two_types (WorkerStep 0)
     (pipeline0\<lparr>input := [], domainChan := [],
             shared := shared0\<lparr>stats := IncrementTotal NewStats\<rparr>,
             domainChanClosed := True, coordinator := Waiting,
             dnsWorkers := [Querying ''example.com'' [TypeA, TypeAAAA]]\<rparr>) =
     Some (pipeline0\<lparr>input := [], domainChan := [],
             shared := shared0\<lparr>stats := IncrementTotal NewStats, world := world_sent1\<rparr>,
             domainChanClosed := True, coordinator := Waiting,
             dnsWorkers := [Querying ''example.com'' [TypeAAAA]],
             resultChan := [result_example]\<rparr>)"
proof -
  have w: "world (shared0\<lparr>stats := IncrementTotal NewStats\<rparr>) = world1"
    by (simp add: shared0_def)
  show ?thesis
    unfolding pipeline_step_def dnsWorker_step_def
    by (simp add: pipeline0_def w query_once)
       (simp add: result_example_def world_sent1_def config_two_types_def shared0_def)
qed

lemma run5:
  "pipeline_step (mockExtern constantExchange) config_two_types ProcessorStep
     (pipeline0\<lparr>input := [], domainChan := [],
             shared := shared0\<lparr>stats := IncrementTotal NewStats, world := world_sent1\<rparr>,
             domainChanClosed := True, coordinator := Waiting,
             dnsWorkers := [Querying ''example.com'' [TypeAAAA]],
             resultChan := [result_example]\<rparr>) =
     Some (pipeline0\<lparr>input := [], domainChan := [],
             shared := shared0\<lparr>stats := IncrementSuccessful (IncrementProcessed (IncrementTotal NewStats)),
                               world := world_sent1,
                               outputHandler := \<lparr>outFile = example_line,
                                  format = ''simple'', writer = False\<rparr>\<rparr>,
             domainChanClosed := True, coordinator := Waiting,
             dnsWorkers := [Querying ''example.com'' [TypeAAAA]],
             resultChan := []\<rparr>)"
proof -
  let ?X = "mockExtern constantExchange"
  let ?m = "\<lparr>Answer = [rrA ''example.com.'' [10, 0, 0, 1]]\<rparr>"
  let ?out = "\<lparr>outFile = '''', format = ''simple'', writer = False\<rparr>"
  have v: "extractRecords_value ?X (rrA ''example.com.'' [10, 0, 0, 1]) = ''10.0.0.1''"
    by (simp add: extractRecords_value_def rrA_def ip1)
  have t: "TypeToString ?X TypeA = ''A''"
    by (simp add: mockExtern_def)
  have n: "showNat (unat (Ttl (Header (rrA ''example.com.'' [10, 0, 0, 1])))) = ''300''"
    by (simp add: rrA_def showNat.simps)
  have wr: "WriteResult ?X ?out result_example =
      Return \<lparr>outFile = example_line,
                                  format = ''simple'', writer = False\<rparr>"
    using WriteResult_simple [of result_example ?m ?out ?X]
    by (simp add: result_example_def v t n example_line_def)
  show ?thesis
    unfolding pipeline_step_def resultProcessor_step_def resultProcessor_iteration_def
      resultProcessor_classify_def resultProcessor_received_def
    using wr
    by (simp add: pipeline0_def shared0_def result_example_def Let_def)
qed

lemma run6:
  "pipeline_step (mockExtern constantExchange) config_two_types CoordinatorStep
     (pipeline0\<lparr>input := [], domainChan := [],
             shared := shared0\<lparr>stats := IncrementSuccessful (IncrementProcessed (IncrementTotal NewStats)),
                               world := world_sent1,
                               outputHandler := \<lparr>outFile = example_line,
                                  format = ''simple'', writer = False\<rparr>\<rparr>,
             domainChanClosed := True, coordinator := Waiting,
             dnsWorkers := [Querying ''example.com'' [TypeAAAA]],
             resultChan := []\<rparr>) = Some pipeline_end"
  by (simp add: pipeline_step_def coordinator_step_def pipeline0_def shared0_def pipeline_end_def
      GetProcessed_def GetTotal_def NewStats_def IncrementTotal_def IncrementProcessed_def
      IncrementSuccessful_def)

text \<open>
  C2. With two query types the coordinator can return \<open>nil\<close> before every result is
  processed: its loop waits while \<open>processed < total\<close>, and \<open>total\<close> counts domains,
  not queries. For the input \<open>example.com\<close> with the types \<open>A,AAAA\<close> and one worker,
  the schedule below ends with the coordinator returned, \<open>total = 1\<close>, \<open>processed = 1\<close>
  and the \<open>AAAA\<close> query of the worker still to do, where the claim says
  \<open>processed = total * 2\<close>.
\<close>

theorem processDNSQueries_returns_before_all_results:
  "processDNSQueries_start (mockExtern constantExchange) config_two_types [''example.com''] shared0 = Inr pipeline0
   \<and> pipeline_run (mockExtern constantExchange) config_two_types
         [CoordinatorStep, CoordinatorStep, WorkerStep 0, WorkerStep 0, ProcessorStep,
          CoordinatorStep] pipeline0 = Some pipeline_end
   \<and> coordinator pipeline_end = ReturnedNil
   \<and> dnsWorkers pipeline_end = [Querying ''example.com'' [TypeAAAA]]
   \<and> GetTotal (stats (shared pipeline_end)) = 1
   \<and> GetProcessed (stats (shared pipeline_end)) = 1
   \<and> length (queryTypes pipeline_end) = 2
   \<and> GetProcessed (stats (shared pipeline_end))
        \<noteq> GetTotal (stats (shared pipeline_end)) * int (length (queryTypes pipeline_end))"
proof -
  have s: "processDNSQueries_start (mockExtern constantExchange) config_two_types [''example.com''] shared0 = Inr pipeline0"
    by (simp add: start_two_types pipeline0_def)
  have r: "pipeline_run (mockExtern constantExchange) config_two_types
         [CoordinatorStep, CoordinatorStep, WorkerStep 0, WorkerStep 0, ProcessorStep,
          CoordinatorStep] pipeline0 = Some pipeline_end"
    by (simp add: run1 run2 run3 run4 run5 run6)
  have e: "coordinator pipeline_end = ReturnedNil
   \<and> dnsWorkers pipeline_end = [Querying ''example.com'' [TypeAAAA]]
   \<and> GetTotal (stats (shared pipeline_end)) = 1
   \<and> GetProcessed (stats (shared pipeline_end)) = 1
   \<and> length (queryTypes pipeline_end) = 2"
    by (simp add: pipeline_end_def GetTotal_def GetProcessed_def)
  from s r e show ?thesis by simp
qed

end
